theory Spec2Isabelle
  imports Main "HOL-Library.Multiset"
begin

section \<open>Python values, exceptions and strings\<close>

text \<open>
  The module \<^verbatim>\<open>save_utils.py\<close> is embedded function by function. Python values that the
  functions inspect are a datatype; a float is carried by its \<^verbatim>\<open>repr\<close> text, since the module
  only stores, copies and prints floats and never computes with them. Strings are
  \<^typ>\<open>string\<close>, whose characters are read as the code points U+0000 to U+00FF.
\<close>

datatype py = PyNone | PyBool bool | PyInt int | PyFloat string | PyStr string

datatype json = Atom py | Array "json list" | Object "(string \<times> json) list"

datatype error =
    ValueError string
  | TypeError string
  | AttributeError string
  | KeyError string
  | IndexError string
  | FileNotFoundError string
  | OtherError string

text \<open>\<^verbatim>\<open>str(e)\<close> of an exception, as the f-string of the loader prints it.\<close>

fun error_str :: "error \<Rightarrow> string" where
  "error_str (ValueError m) = m"
| "error_str (TypeError m) = m"
| "error_str (AttributeError m) = m"
| "error_str (KeyError m) = m"
| "error_str (IndexError m) = m"
| "error_str (FileNotFoundError m) = m"
| "error_str (OtherError m) = m"

text \<open>\<^verbatim>\<open>isinstance(x, int)\<close>: \<^verbatim>\<open>bool\<close> is a subclass of \<^verbatim>\<open>int\<close>.\<close>

fun isinstance_int :: "py \<Rightarrow> bool" where
  "isinstance_int (PyInt n) = True"
| "isinstance_int (PyBool b) = True"
| "isinstance_int PyNone = False"
| "isinstance_int (PyFloat r) = False"
| "isinstance_int (PyStr s) = False"

definition digit_char :: "nat \<Rightarrow> char" where
  "digit_char d = ''0123456789'' ! d"

fun str_nat :: "nat \<Rightarrow> string" where
  "str_nat n = (if n < 10 then [digit_char n] else str_nat (n div 10) @ [digit_char (n mod 10)])"

definition str_int :: "int \<Rightarrow> string" where
  "str_int k = (if k < 0 then CHR ''-'' # str_nat (nat (- k)) else str_nat (nat k))"

text \<open>What an f-string field \<^verbatim>\<open>{x}\<close> prints for a value.\<close>

fun py_format :: "py \<Rightarrow> string" where
  "py_format PyNone = ''None''"
| "py_format (PyBool b) = (if b then ''True'' else ''False'')"
| "py_format (PyInt n) = str_int n"
| "py_format (PyFloat r) = r"
| "py_format (PyStr s) = s"

definition startswith :: "string \<Rightarrow> string \<Rightarrow> bool" where
  "startswith s pre = (take (length pre) s = pre)"

definition endswith :: "string \<Rightarrow> string \<Rightarrow> bool" where
  "endswith s suf = (length suf \<le> length s \<and> drop (length s - length suf) s = suf)"

text \<open>\<^verbatim>\<open>s.split(sep)[0]\<close> for a one-character separator: the text before its first occurrence.\<close>

definition split_first :: "char \<Rightarrow> string \<Rightarrow> string" where
  "split_first sep s = takeWhile (\<lambda>c. c \<noteq> sep) s"

text \<open>\<^verbatim>\<open>", ".join(...)\<close>, used by the \<^verbatim>\<open>repr\<close> of tuples and lists of integers.\<close>

fun comma_join :: "string list \<Rightarrow> string" where
  "comma_join [] = []"
| "comma_join [x] = x"
| "comma_join (x # y # zs) = x @ '', '' @ comma_join (y # zs)"

definition tuple_repr :: "nat list \<Rightarrow> string" where
  "tuple_repr ns =
     (case ns of
        [n] \<Rightarrow> ''('' @ str_nat n @ '',)''
      | _ \<Rightarrow> ''('' @ comma_join (map str_nat ns) @ '')'')"

definition list_repr :: "int list \<Rightarrow> string" where
  "list_repr ks = ''['' @ comma_join (map str_int ks) @ '']''"

text \<open>\<^verbatim>\<open>xs.index(x)\<close>: the first position of \<open>x\<close>; Python raises when there is none.\<close>

fun index_of :: "'a list \<Rightarrow> 'a \<Rightarrow> nat option" where
  "index_of [] x = None"
| "index_of (y # ys) x = (if y = x then Some 0 else map_option Suc (index_of ys x))"

text \<open>Assignment \<^verbatim>\<open>d[k] = v\<close> on an insertion-ordered dict: an existing key keeps its place.\<close>

fun dict_set :: "('k \<times> 'v) list \<Rightarrow> 'k \<Rightarrow> 'v \<Rightarrow> ('k \<times> 'v) list" where
  "dict_set [] k v = [(k, v)]"
| "dict_set ((k', v') # d) k v = (if k' = k then (k, v) # d else (k', v') # dict_set d k v)"

text \<open>The first failure of a sequence of computations, as a raised exception ends a
  comprehension.\<close>

fun sequence_results :: "(error + 'a) list \<Rightarrow> error + 'a list" where
  "sequence_results [] = Inr []"
| "sequence_results (r # rs) =
     (case r of
        Inl e \<Rightarrow> Inl e
      | Inr x \<Rightarrow> (case sequence_results rs of Inl e \<Rightarrow> Inl e | Inr xs \<Rightarrow> Inr (x # xs)))"

section \<open>Handle-key parser\<close>

text \<open>
  Python decides \<^verbatim>\<open>c.isdigit()\<close> from the Unicode character database, which is no part
  of the module: the test is true for the decimal digits and for every other character
  with the numeric type Digit, such as the superscript digits. The parser takes the test
  as its first argument \<open>digit\<close> and is modelled for every alphabet. On the characters
  of \<^typ>\<open>string\<close> the test is \<open>isdigit\<close>: among the code points up to U+00FF,
  \<^verbatim>\<open>str.isdigit\<close> holds for \<^verbatim>\<open>0\<close> to \<^verbatim>\<open>9\<close> and for U+00B2, U+00B3 and U+00B9
  (superscript two, three and one).
\<close>

definition isdigit :: "char \<Rightarrow> bool" where
  "isdigit c = (c \<in> set (''0123456789'' @ [CHR 0xB2, CHR 0xB3, CHR 0xB9]))"

text \<open>\<^verbatim>\<open>next((i for i, c in enumerate(input_string) if c.isdigit()), None)\<close>,
  the counter of \<^verbatim>\<open>enumerate\<close> as the second argument.\<close>

fun first_digit_index :: "('c \<Rightarrow> bool) \<Rightarrow> nat \<Rightarrow> 'c list \<Rightarrow> nat option" where
  "first_digit_index digit i [] = None"
| "first_digit_index digit i (c # cs) =
     (if digit c then Some i else first_digit_index digit (Suc i) cs)"

definition extract_string :: "('c \<Rightarrow> bool) \<Rightarrow> 'c list \<Rightarrow> 'c list option" where
  "extract_string digit input_string =
     (case first_digit_index digit 0 input_string of
        Some index \<Rightarrow> Some (take index input_string)
      | None \<Rightarrow> None)"

section \<open>Folder locator\<close>

text \<open>
  A directory holds its entries in the order in which the operating system lists them;
  \<^verbatim>\<open>os.walk\<close> and \<^verbatim>\<open>os.listdir\<close> both follow that order.
\<close>

datatype node = File string | Dir string "node list"

fun dirnames :: "node list \<Rightarrow> string list" where
  "dirnames [] = []"
| "dirnames (File f # es) = dirnames es"
| "dirnames (Dir d sub # es) = d # dirnames es"

fun filenames :: "node list \<Rightarrow> string list" where
  "filenames [] = []"
| "filenames (File f # es) = f # filenames es"
| "filenames (Dir d sub # es) = filenames es"

fun entry_name :: "node \<Rightarrow> string" where
  "entry_name (File f) = f"
| "entry_name (Dir d sub) = d"

text \<open>\<^verbatim>\<open>os.path.join\<close> of two strings on a POSIX system.\<close>

definition os_path_join :: "string \<Rightarrow> string \<Rightarrow> string" where
  "os_path_join a b =
     (if startswith b ''/'' then b
      else if a = [] \<or> endswith a ''/'' then a @ b
      else a @ ''/'' @ b)"

text \<open>
  \<^verbatim>\<open>os.walk(dirpath)\<close>, top-down: the triple of a directory comes first, then the walks of
  its subdirectories in listing order. A path that is no directory yields nothing.
\<close>

primrec walk_node :: "string \<Rightarrow> node \<Rightarrow> (string \<times> string list \<times> string list) list"
  and walk_nodes :: "string \<Rightarrow> node list \<Rightarrow> (string \<times> string list \<times> string list) list" where
  "walk_node dirpath (File f) = []"
| "walk_node dirpath (Dir d sub) =
     (os_path_join dirpath d, dirnames sub, filenames sub) # walk_nodes (os_path_join dirpath d) sub"
| "walk_nodes dirpath [] = []"
| "walk_nodes dirpath (e # es) = walk_node dirpath e @ walk_nodes dirpath es"

definition os_walk :: "node list option \<Rightarrow> string \<Rightarrow> (string \<times> string list \<times> string list) list" where
  "os_walk tree dirpath =
     (case tree of
        None \<Rightarrow> []
      | Some entries \<Rightarrow> (dirpath, dirnames entries, filenames entries) # walk_nodes dirpath entries)"

definition search_prefix :: "py \<Rightarrow> string" where
  "search_prefix number = ''#'' @ py_format number @ ''_''"

text \<open>The loop of \<^verbatim>\<open>find_numbered_folder\<close> over the triples of the walk.\<close>

fun first_match :: "string \<Rightarrow> (string \<times> string list \<times> string list) list \<Rightarrow> string option" where
  "first_match pre [] = None"
| "first_match pre ((root, dirs, files) # rest) =
     (case [d \<leftarrow> dirs. startswith d pre \<and> length d > length pre] of
        d # matching_dirs \<Rightarrow> Some (os_path_join root d)
      | [] \<Rightarrow> first_match pre rest)"

text \<open>The directory tree found at \<open>base_path\<close> is the first argument (\<open>None\<close> when
  \<open>base_path\<close> is no directory).\<close>

definition find_numbered_folder :: "node list option \<Rightarrow> string \<Rightarrow> py \<Rightarrow> string option" where
  "find_numbered_folder tree base_path number =
     first_match (search_prefix number) (os_walk tree base_path)"

section \<open>Arrays and labelled datasets\<close>

text \<open>
  What the module uses of numpy and xarray. An array is its shape and its elements in
  row-major order.
\<close>

record 'a ndarray =
  shape :: "nat list"
  data :: "'a list"

text \<open>\<^verbatim>\<open>np.squeeze(a)\<close> drops every axis of size one; the elements stay as they are.\<close>

definition np_squeeze :: "'a ndarray \<Rightarrow> 'a ndarray" where
  "np_squeeze a = a\<lparr>shape := [n \<leftarrow> shape a. n \<noteq> 1]\<rparr>"

text \<open>\<^verbatim>\<open>a.squeeze(axis=-1)\<close>, called only when the last axis has size one.\<close>

definition np_squeeze_last :: "'a ndarray \<Rightarrow> 'a ndarray" where
  "np_squeeze_last a = a\<lparr>shape := butlast (shape a)\<rparr>"

text \<open>\<^verbatim>\<open>a.shape[-1]\<close>.\<close>

definition shape_last :: "'a ndarray \<Rightarrow> error + nat" where
  "shape_last a =
     (case rev (shape a) of
        [] \<Rightarrow> Inl (IndexError ''tuple index out of range'')
      | n # ns \<Rightarrow> Inr n)"

fun ravel_index :: "nat list \<Rightarrow> nat list \<Rightarrow> nat" where
  "ravel_index (n # ns) (j # js) = j * prod_list ns + ravel_index ns js"
| "ravel_index ns js = 0"

fun unravel_index :: "nat list \<Rightarrow> nat \<Rightarrow> nat list" where
  "unravel_index [] k = []"
| "unravel_index (n # ns) k = (k div prod_list ns) # unravel_index ns (k mod prod_list ns)"

text \<open>The index into the source array of the element that \<^verbatim>\<open>np.transpose(a, axes)\<close>
  puts at index \<open>idx\<close>: axis \<open>k\<close> of the result is axis \<open>axes ! k\<close> of the source.\<close>

definition source_index :: "nat list \<Rightarrow> nat list \<Rightarrow> nat list" where
  "source_index axes idx =
     map (\<lambda>j. case index_of axes j of Some k \<Rightarrow> idx ! k | None \<Rightarrow> 0) [0..<length axes]"

text \<open>\<^verbatim>\<open>np.transpose(a, axes)\<close>; numpy refuses axes that are no permutation of the
  array's axes.\<close>

definition np_transpose :: "'a ndarray \<Rightarrow> nat list \<Rightarrow> error + 'a ndarray" where
  "np_transpose a axes =
     (if length axes \<noteq> length (shape a) then Inl (ValueError ''axes don't match array'')
      else if list_ex (\<lambda>p. length (shape a) \<le> p) axes
        then Inl (ValueError ''axis is out of bounds for array'')
      else if \<not> distinct axes then Inl (ValueError ''repeated axis in transpose'')
      else
        let new_shape = map (\<lambda>p. shape a ! p) axes
        in Inr \<lparr>shape = new_shape,
                data = map (\<lambda>k. data a ! ravel_index (shape a)
                                     (source_index axes (unravel_index new_shape k)))
                         [0..<prod_list new_shape]\<rparr>)"

text \<open>\<^verbatim>\<open>np.array(xs)\<close> of a list of arrays: a new leading axis; arrays of different
  shapes are refused.\<close>

definition np_array :: "'a ndarray list \<Rightarrow> error + 'a ndarray" where
  "np_array xs =
     (case xs of
        [] \<Rightarrow> Inr \<lparr>shape = [0], data = []\<rparr>
      | x # ys \<Rightarrow>
          if list_all (\<lambda>y. shape y = shape x) ys
          then Inr \<lparr>shape = length xs # shape x, data = concat (map data xs)\<rparr>
          else Inl (ValueError ''setting an array element with a sequence''))"

text \<open>\<^verbatim>\<open>np.array(values)\<close> of a list of lists of arrays.\<close>

definition np_array_nested :: "'a ndarray list list \<Rightarrow> error + 'a ndarray" where
  "np_array_nested values =
     (case sequence_results (map np_array values) of
        Inl e \<Rightarrow> Inl e
      | Inr rows \<Rightarrow> np_array rows)"

text \<open>\<^verbatim>\<open>a[i]\<close> on the leading axis, for \<open>i\<close> below its size.\<close>

definition np_item :: "'a ndarray \<Rightarrow> nat \<Rightarrow> 'a ndarray" where
  "np_item a i =
     \<lparr>shape = tl (shape a),
      data = take (prod_list (tl (shape a))) (drop (i * prod_list (tl (shape a))) (data a))\<rparr>"

text \<open>An axis of the measurement: a scalar count or a sequence of coordinate values.\<close>

datatype axis_value = Scalar int | Sequence "py list"

record 'a dataset =
  data_vars :: "(string \<times> string list \<times> 'a ndarray) list"
  coords :: "(string \<times> axis_value) list"

definition dim_sizes ::
  "(string \<times> string list \<times> 'a ndarray) list \<Rightarrow> (string \<times> axis_value) list \<Rightarrow> (string \<times> nat) list" where
  "dim_sizes vars cs =
     concat (map (\<lambda>(v, dims, a). zip dims (shape a)) vars)
     @ concat (map (\<lambda>(k, c). case c of Sequence xs \<Rightarrow> [(k, length xs)] | Scalar n \<Rightarrow> []) cs)"

definition scalar_coords :: "(string \<times> axis_value) list \<Rightarrow> string list" where
  "scalar_coords cs = concat (map (\<lambda>(k, c). case c of Sequence xs \<Rightarrow> [] | Scalar n \<Rightarrow> [k]) cs)"

text \<open>
  \<^verbatim>\<open>xr.Dataset(data_vars, coords=coords)\<close> with the constructor's checks on dimensions:
  as many dimension labels as axes, no dimension named like a scalar coordinate, one size
  per dimension.
\<close>

definition xr_Dataset ::
  "(string \<times> string list \<times> 'a ndarray) list \<Rightarrow> (string \<times> axis_value) list \<Rightarrow> error + 'a dataset" where
  "xr_Dataset vars cs =
     (if list_ex (\<lambda>(v, dims, a). length dims \<noteq> length (shape a)) vars
        then Inl (ValueError ''different number of dimensions on data and dims'')
      else if list_ex (\<lambda>(d, n). d \<in> set (scalar_coords cs)) (dim_sizes vars cs)
        then Inl (ValueError ''dimension already exists as a scalar variable'')
      else if list_ex (\<lambda>(d, n). list_ex (\<lambda>(d', n'). d = d' \<and> n \<noteq> n') (dim_sizes vars cs))
                (dim_sizes vars cs)
        then Inl (ValueError ''conflicting sizes for dimension'')
      else Inr \<lparr>data_vars = vars, coords = cs\<rparr>)"

section \<open>Dataset assemblers\<close>

record qubit =
  name :: string

text \<open>\<^verbatim>\<open>handles.get(key).fetch_all()\<close>: a handle is given by the array it fetches; a
  missing key makes \<^verbatim>\<open>get\<close> return \<^verbatim>\<open>None\<close>, which has no \<^verbatim>\<open>fetch_all\<close>.\<close>

definition handle_fetch_all :: "(string \<times> 'a ndarray) list \<Rightarrow> string \<Rightarrow> error + 'a ndarray" where
  "handle_fetch_all handles key =
     (case map_of handles key of
        None \<Rightarrow> Inl (AttributeError ''NoneType object has no attribute fetch_all'')
      | Some raw \<Rightarrow> Inr raw)"

text \<open>\<^verbatim>\<open>[extract_string(handle) for handle in stream_handles if extract_string(handle) is not None]\<close>\<close>

definition parsed_handles :: "string list \<Rightarrow> string list" where
  "parsed_handles stream_handles =
     concat (map (\<lambda>handle. case extract_string isdigit handle of Some v \<Rightarrow> [v] | None \<Rightarrow> [])
       stream_handles)"

text \<open>
  \<^verbatim>\<open>list(set(xs))\<close> lists the distinct elements of \<open>xs\<close> in an order that Python does not
  fix. The assemblers take that order as their first argument \<open>set_order\<close>; the theorems
  hold for every order with the property \<open>set_iteration\<close>.
\<close>

definition set_iteration :: "(string list \<Rightarrow> string list) \<Rightarrow> bool" where
  "set_iteration set_order = (\<forall>xs. distinct (set_order xs) \<and> set (set_order xs) = set xs)"

text \<open>The standard variant. The \<^verbatim>\<open>"qubit"\<close> entry that the function also leaves in the
  caller's \<^verbatim>\<open>measurement_axis\<close> is not part of the returned value.\<close>

definition fetch_results_as_xarray ::
  "(string list \<Rightarrow> string list) \<Rightarrow> (string \<times> 'a ndarray) list \<Rightarrow> qubit list
     \<Rightarrow> (string \<times> axis_value) list \<Rightarrow> error + 'a dataset" where
  "fetch_results_as_xarray set_order handles qubits measurement_axis =
     (let stream_handles = map fst handles;
          meas_vars = set_order (parsed_handles stream_handles)
      in case sequence_results
                (map (\<lambda>meas_var.
                        sequence_results
                          (map (\<lambda>i. handle_fetch_all handles (meas_var @ str_nat (i + 1)))
                             [0..<length qubits]))
                   meas_vars) of
           Inl e \<Rightarrow> Inl e
         | Inr values \<Rightarrow>
            (case np_array_nested values of
               Inl e \<Rightarrow> Inl e
             | Inr stacked \<Rightarrow>
                (case shape_last stacked of
                   Inl e \<Rightarrow> Inl e
                 | Inr n \<Rightarrow>
                    let items =
                          (if n = 1
                           then map (\<lambda>i. Inr (np_item (np_squeeze_last stacked) i))
                                  [0..<length meas_vars]
                           else map np_array values);
                        with_qubit =
                          dict_set measurement_axis ''qubit''
                            (Sequence (map (\<lambda>qubit. PyStr (name qubit)) qubits));
                        reversed_axis = rev with_qubit
                    in (case sequence_results items of
                          Inl e \<Rightarrow> Inl e
                        | Inr arrays \<Rightarrow>
                            xr_Dataset
                              (map (\<lambda>(meas_var, a). (meas_var, map fst reversed_axis, a))
                                 (zip meas_vars arrays))
                              reversed_axis))))"

text \<open>\<^verbatim>\<open>[len(v) if not np.isscalar(v) else v for v in measurement_axis.values()]\<close>\<close>

definition expected_shape_of :: "(string \<times> axis_value) list \<Rightarrow> int list" where
  "expected_shape_of measurement_axis =
     map (\<lambda>v. case v of Sequence xs \<Rightarrow> int (length xs) | Scalar n \<Rightarrow> n)
       (map snd measurement_axis)"

text \<open>\<^verbatim>\<open>arr.shape.index(s)\<close>\<close>

definition shape_index :: "nat list \<Rightarrow> int \<Rightarrow> error + nat" where
  "shape_index shp s =
     (case index_of (map int shp) s of
        None \<Rightarrow> Inl (ValueError ''tuple.index(x): x not in tuple'')
      | Some k \<Rightarrow> Inr k)"

text \<open>The axes that the validated variant hands to the transposition: for each expected
  size in order, the first axis of the array that has that size.\<close>

definition first_positions :: "nat list \<Rightarrow> int list \<Rightarrow> nat list" where
  "first_positions shp expected =
     map (\<lambda>s. case index_of (map int shp) s of Some k \<Rightarrow> k | None \<Rightarrow> 0) expected"

text \<open>The body of the loop over the qubits in the validated variant, for the measurement
  variable \<open>meas_var\<close> and the qubit at position \<open>i\<close>.\<close>

definition single_shot_qubit_data ::
  "(string \<times> 'a ndarray) list \<Rightarrow> (string \<times> axis_value) list \<Rightarrow> string \<Rightarrow> nat
     \<Rightarrow> error + 'a ndarray" where
  "single_shot_qubit_data handles measurement_axis meas_var i =
     (case handle_fetch_all handles (meas_var @ str_nat (i + 1)) of
        Inl e \<Rightarrow> Inl e
      | Inr raw \<Rightarrow>
          let arr = np_squeeze raw;
              expected_shape = expected_shape_of measurement_axis
          in if map int (shape arr) \<noteq> expected_shape then
               if sort (map int (shape arr)) = sort expected_shape then
                 (case sequence_results (map (shape_index (shape arr)) expected_shape) of
                    Inl e \<Rightarrow> Inl e
                  | Inr perm \<Rightarrow> np_transpose arr perm)
               else
                 Inl (ValueError
                   (''Shape mismatch for '' @ meas_var @ str_nat (i + 1) @ '': got ''
                      @ tuple_repr (shape arr) @ '', expected '' @ list_repr expected_shape))
             else Inr arr)"

text \<open>The validated (single-shot) variant.\<close>

definition fetch_single_shot_results_as_xarray ::
  "(string list \<Rightarrow> string list) \<Rightarrow> (string \<times> 'a ndarray) list \<Rightarrow> qubit list
     \<Rightarrow> (string \<times> axis_value) list \<Rightarrow> error + 'a dataset" where
  "fetch_single_shot_results_as_xarray set_order handles qubits measurement_axis =
     (let stream_handles = map fst handles;
          meas_vars = set_order (parsed_handles stream_handles)
      in case sequence_results
                (map (\<lambda>meas_var.
                        case sequence_results
                               (map (single_shot_qubit_data handles measurement_axis meas_var)
                                  [0..<length qubits]) of
                          Inl e \<Rightarrow> Inl e
                        | Inr qubit_data \<Rightarrow> np_array qubit_data)
                   meas_vars) of
           Inl e \<Rightarrow> Inl e
         | Inr values \<Rightarrow>
            let coords =
                  foldl (\<lambda>d (k, v). dict_set d k v)
                    [(''qubit'', Sequence (map (\<lambda>qubit. PyStr (name qubit)) qubits))]
                    measurement_axis;
                ordered_axes = ''qubit'' # map fst measurement_axis
            in xr_Dataset
                 (map (\<lambda>(meas_var, a). (meas_var, ordered_axes, a)) (zip meas_vars values))
                 coords)"

section \<open>Dataset loader\<close>

text \<open>
  The loader reads its surroundings, which are a record here: the storage location of the
  settings, the directory tree below it (\<open>None\<close> when it is no directory), the entries of
  the current directory, and the three readers of the collaborating libraries, each given
  by what it returns for a path. The loader returns its outcome together with the accesses
  and prints it made, in order.
\<close>

record machine =
  machine_qubits :: "(string \<times> qubit) list"

record 'a env =
  storage_location :: string
  storage_tree :: "node list option"
  cwd_entries :: "string list"
  xr_open_dataset :: "string \<Rightarrow> error + 'a dataset"
  json_load :: "string \<Rightarrow> error + json"
  Quam_load :: "string \<Rightarrow> error + machine"

datatype event =
    GetSettings
  | Walk string
  | Listdir "string option"
  | OpenDataset string
  | OpenFile string
  | LoadState string
  | Print string

datatype 'a loader_result =
    NoBundle
  | Bundle4 "'a dataset" "machine option" json "qubit list"
  | Bundle5 "'a dataset" "machine option" json "qubit list" "(string \<times> json) list"

definition get_storage_path :: "'a env \<Rightarrow> string" where
  "get_storage_path env = storage_location env"

text \<open>The entries of the directory at path \<open>p\<close> below \<open>dirpath\<close>.\<close>

primrec find_dir :: "string \<Rightarrow> node \<Rightarrow> string \<Rightarrow> node list option"
  and find_dirs :: "string \<Rightarrow> node list \<Rightarrow> string \<Rightarrow> node list option" where
  "find_dir dirpath (File f) p = None"
| "find_dir dirpath (Dir d sub) p =
     (if os_path_join dirpath d = p then Some sub else find_dirs (os_path_join dirpath d) sub p)"
| "find_dirs dirpath [] p = None"
| "find_dirs dirpath (e # es) p =
     (case find_dir dirpath e p of Some sub \<Rightarrow> Some sub | None \<Rightarrow> find_dirs dirpath es p)"

text \<open>\<^verbatim>\<open>os.listdir(path)\<close>; with \<^verbatim>\<open>None\<close> for the path, Python lists the current
  directory.\<close>

definition os_listdir :: "'a env \<Rightarrow> string option \<Rightarrow> error + string list" where
  "os_listdir env path =
     (case path of
        None \<Rightarrow> Inr (cwd_entries env)
      | Some p \<Rightarrow>
          (case storage_tree env of
             None \<Rightarrow> Inl (FileNotFoundError p)
           | Some entries \<Rightarrow>
               if p = storage_location env then Inr (map entry_name entries)
               else (case find_dirs (storage_location env) entries p of
                       None \<Rightarrow> Inl (FileNotFoundError p)
                     | Some sub \<Rightarrow> Inr (map entry_name sub))))"

text \<open>\<^verbatim>\<open>ds.qubit.values\<close>: the values of the coordinate, or the positions along a
  dimension that has no coordinate.\<close>

definition dataset_qubit_values :: "'a dataset \<Rightarrow> error + py list" where
  "dataset_qubit_values ds =
     (case map_of (coords ds) ''qubit'' of
        Some (Sequence xs) \<Rightarrow> Inr xs
      | Some (Scalar n) \<Rightarrow> Inl (TypeError ''iteration over a 0-d array'')
      | None \<Rightarrow>
          (case map_of (dim_sizes (data_vars ds) []) ''qubit'' of
             Some n \<Rightarrow> Inr (map (\<lambda>i. PyInt (int i)) [0..<n])
           | None \<Rightarrow> Inl (AttributeError ''Dataset object has no attribute qubit'')))"

text \<open>\<^verbatim>\<open>machine.qubits[qname]\<close> on a loaded state.\<close>

definition machine_getitem :: "machine \<Rightarrow> py \<Rightarrow> error + qubit" where
  "machine_getitem m qname =
     (case qname of
        PyStr s \<Rightarrow>
          (case map_of (machine_qubits m) s of
             Some q \<Rightarrow> Inr q
           | None \<Rightarrow> Inl (KeyError s))
      | _ \<Rightarrow> Inl (KeyError (py_format qname)))"

text \<open>\<^verbatim>\<open>[machine.qubits[qname] for qname in ds.qubit.values]\<close>\<close>

fun cross_reference :: "machine option \<Rightarrow> py list \<Rightarrow> error + qubit list" where
  "cross_reference machine [] = Inr []"
| "cross_reference machine (qname # rest) =
     (case machine of
        None \<Rightarrow> Inl (AttributeError ''NoneType object has no attribute qubits'')
      | Some m \<Rightarrow>
          (case machine_getitem m qname of
             Inl e \<Rightarrow> Inl e
           | Inr q \<Rightarrow>
               (case cross_reference machine rest of
                  Inl e \<Rightarrow> Inl e
                | Inr qs \<Rightarrow> Inr (q # qs))))"

definition is_substring :: "string \<Rightarrow> string \<Rightarrow> bool" where
  "is_substring sub s = list_ex (\<lambda>i. take (length sub) (drop i s) = sub) [0..<Suc (length s)]"

text \<open>\<^verbatim>\<open>obj[key]\<close> and \<^verbatim>\<open>key in obj\<close> for a string key on parsed JSON.\<close>

definition json_getitem :: "json \<Rightarrow> string \<Rightarrow> error + json" where
  "json_getitem obj key =
     (case obj of
        Object kvs \<Rightarrow> (case map_of kvs key of Some v \<Rightarrow> Inr v | None \<Rightarrow> Inl (KeyError key))
      | Array xs \<Rightarrow> Inl (TypeError ''list indices must be integers or slices, not str'')
      | Atom (PyStr s) \<Rightarrow> Inl (TypeError ''string indices must be integers, not str'')
      | Atom a \<Rightarrow> Inl (TypeError ''object is not subscriptable''))"

definition json_contains :: "json \<Rightarrow> string \<Rightarrow> error + bool" where
  "json_contains obj key =
     (case obj of
        Object kvs \<Rightarrow> Inr (key \<in> set (map fst kvs))
      | Array xs \<Rightarrow> Inr (Atom (PyStr key) \<in> set xs)
      | Atom (PyStr s) \<Rightarrow> Inr (is_substring key s)
      | Atom a \<Rightarrow> Inl (TypeError ''argument is not iterable''))"

text \<open>
  The loop over the \<open>(param_name, param_value)\<close> pairs of the parameters object; the
  object, an ordered list of attributes, is the last argument and
  \<^verbatim>\<open>setattr\<close> is \<open>dict_set\<close> on it.
\<close>

fun overlay_parameters ::
  "(string \<times> json) list \<Rightarrow> json \<Rightarrow> (string \<times> json) list \<Rightarrow> error + (string \<times> json) list" where
  "overlay_parameters [] json_data parameters = Inr parameters"
| "overlay_parameters ((param_name, param_value) # rest) json_data parameters =
     (if param_name \<noteq> ''load_data_id'' then
        (case json_getitem json_data ''initial_parameters'' of
           Inl e \<Rightarrow> Inl e
         | Inr initial_parameters \<Rightarrow>
             (case json_contains initial_parameters param_name of
                Inl e \<Rightarrow> Inl e
              | Inr present \<Rightarrow>
                  if present then
                    (case json_getitem initial_parameters param_name of
                       Inl e \<Rightarrow> Inl e
                     | Inr v \<Rightarrow> overlay_parameters rest json_data (dict_set parameters param_name v))
                  else overlay_parameters rest json_data parameters))
      else overlay_parameters rest json_data parameters)"

text \<open>The branch \<^verbatim>\<open>if nc_files:\<close> of the loader. \<^verbatim>\<open>os.path.join\<close> raises a
  \<^verbatim>\<open>TypeError\<close> for an argument that is \<^verbatim>\<open>None\<close>, the first argument first.\<close>

definition load_bundle ::
  "'a env \<Rightarrow> string option \<Rightarrow> string option \<Rightarrow> string \<Rightarrow> (string \<times> json) list option
     \<Rightarrow> event list \<Rightarrow> (error + 'a loader_result) \<times> event list" where
  "load_bundle env base_folder filename json_filename parameters trace =
     (case base_folder of
        None \<Rightarrow> (Inl (TypeError ''expected str, bytes or os.PathLike object, not NoneType''), trace)
      | Some folder \<Rightarrow>
      (case filename of
        None \<Rightarrow> (Inl (TypeError ''join() argument must be str, bytes, or os.PathLike object, not NoneType''), trace)
      | Some file \<Rightarrow>
          let file_path = os_path_join folder file;
              json_path = os_path_join folder json_filename;
              trace1 = trace @ [OpenDataset file_path]
          in
      (case xr_open_dataset env file_path of
        Inl e \<Rightarrow> (Inl e, trace1)
      | Inr ds \<Rightarrow>
          let trace2 = trace1 @ [OpenFile json_path]
          in
      (case json_load env json_path of
        Inl e \<Rightarrow> (Inl e, trace2)
      | Inr json_data \<Rightarrow>
          let state_path = folder @ ''//quam_state.json'';
              machine =
                (case Quam_load env state_path of Inl e \<Rightarrow> None | Inr m \<Rightarrow> Some m);
              trace3 =
                (case Quam_load env state_path of
                   Inl e \<Rightarrow>
                     trace2 @ [LoadState state_path, Print (''Error loading machine: '' @ error_str e)]
                 | Inr m \<Rightarrow> trace2 @ [LoadState state_path])
          in
      (case dataset_qubit_values ds of
        Inl e \<Rightarrow> (Inl e, trace3)
      | Inr qnames \<Rightarrow>
      (case cross_reference machine qnames of
        Inl e \<Rightarrow> (Inl e, trace3)
      | Inr qubits \<Rightarrow>
      (case parameters of
        None \<Rightarrow> (Inr (Bundle4 ds machine json_data qubits), trace3)
      | Some ps \<Rightarrow>
      (case overlay_parameters ps json_data ps of
        Inl e \<Rightarrow> (Inl e, trace3)
      | Inr ps' \<Rightarrow> (Inr (Bundle5 ds machine json_data qubits ps'), trace3)))))))))"

definition load_dataset ::
  "'a env \<Rightarrow> py \<Rightarrow> string \<Rightarrow> (string \<times> json) list option \<Rightarrow> (error + 'a loader_result) \<times> event list" where
  "load_dataset env serial_number target_filename parameters =
     (if \<not> isinstance_int serial_number
      then (Inl (ValueError ''serial_number must be an integer''), [])
      else
        let base_folder =
              find_numbered_folder (storage_tree env) (get_storage_path env) serial_number;
            trace = [GetSettings, Walk (get_storage_path env), Listdir base_folder]
        in
        (case os_listdir env base_folder of
           Inl e \<Rightarrow> (Inl e, trace)
         | Inr entries \<Rightarrow>
             let nc_files = [f \<leftarrow> entries. endswith f ''.h5''];
                 is_present = (target_filename \<in> set (map (split_first CHR ''.'') nc_files));
                 filename =
                   (if is_present
                    then (case [file \<leftarrow> nc_files. target_filename = split_first CHR ''.'' file] of
                            file # others \<Rightarrow> Some file
                          | [] \<Rightarrow> None)
                    else None);
                 json_filename = ''data.json''
             in if nc_files \<noteq> []
                then load_bundle env base_folder filename json_filename parameters trace
                else (Inr NoBundle,
                      trace @ [Print (''No .nc file found in folder: ''
                                 @ (case base_folder of None \<Rightarrow> ''None'' | Some folder \<Rightarrow> folder))])))"

section \<open>Notions of the specification\<close>

text \<open>
  The definitions of this section follow the words of the specification, not the code;
  the theorems compare the code with them.
\<close>

text \<open>A directory name that starts with \<^verbatim>\<open>#<N>_\<close> and is strictly longer than that
  prefix.\<close>

definition numbered_name :: "int \<Rightarrow> string \<Rightarrow> bool" where
  "numbered_name n d =
     (take (length (''#'' @ str_int n @ ''_'')) d = ''#'' @ str_int n @ ''_''
      \<and> length (''#'' @ str_int n @ ''_'') < length d)"

text \<open>The directories in the order in which the walk meets them, each with the directory
  that holds it.\<close>

definition walk_order_dirs :: "node list option \<Rightarrow> string \<Rightarrow> (string \<times> string) list" where
  "walk_order_dirs tree base_path =
     concat (map (\<lambda>(root, dirs, files). map (Pair root) dirs) (os_walk tree base_path))"

text \<open>The names of all directories anywhere under the root.\<close>

primrec dirs_below :: "node \<Rightarrow> string list"
  and dirs_below_all :: "node list \<Rightarrow> string list" where
  "dirs_below (File f) = []"
| "dirs_below (Dir d sub) = d # dirs_below_all sub"
| "dirs_below_all [] = []"
| "dirs_below_all (e # es) = dirs_below e @ dirs_below_all es"

definition dirs_under :: "node list option \<Rightarrow> string list" where
  "dirs_under tree = (case tree of None \<Rightarrow> [] | Some entries \<Rightarrow> dirs_below_all entries)"

text \<open>The directories of a list of walk triples, in order.\<close>

definition walk_dirs :: "(string \<times> string list \<times> string list) list \<Rightarrow> (string \<times> string) list" where
  "walk_dirs triples = concat (map (\<lambda>(root, dirs, files). map (Pair root) dirs) triples)"

section \<open>An example store\<close>

text \<open>
  A storage root \<^verbatim>\<open>/data\<close> with the given entries, whose folder \<^verbatim>\<open>#12_test\<close> holds a
  dataset \<^verbatim>\<open>ds.h5\<close> over the given qubit names, the metadata
  \<^verbatim>\<open>{"initial_parameters": {"amplitude": 0.5, "load_data_id": 7}}\<close> and a state file that loads as given.
\<close>

definition example_dataset :: "py list \<Rightarrow> int dataset" where
  "example_dataset qubit_names =
     \<lparr>data_vars =
        [(''I'', [''qubit'', ''freq''],
          \<lparr>shape = [length qubit_names, 1], data = map int [0..<length qubit_names]\<rparr>)],
      coords = [(''qubit'', Sequence qubit_names), (''freq'', Sequence [PyInt 10])]\<rparr>"

definition example_machine :: machine where
  "example_machine =
     \<lparr>machine_qubits = [(''q1'', \<lparr>name = ''q1''\<rparr>), (''q2'', \<lparr>name = ''q2''\<rparr>)]\<rparr>"

definition example_metadata :: json where
  "example_metadata =
     Object [(''initial_parameters'',
              Object [(''amplitude'', Atom (PyFloat ''0.5'')), (''load_data_id'', Atom (PyInt 7))])]"

definition example_env :: "node list \<Rightarrow> string list \<Rightarrow> py list \<Rightarrow> error + machine \<Rightarrow> int env" where
  "example_env entries cwd qubit_names state =
     \<lparr>storage_location = ''/data'',
      storage_tree = Some entries,
      cwd_entries = cwd,
      xr_open_dataset =
        (\<lambda>p. if p = ''/data/#12_test/ds.h5'' then Inr (example_dataset qubit_names)
             else Inl (FileNotFoundError p)),
      json_load =
        (\<lambda>p. if p = ''/data/#12_test/data.json'' then Inr example_metadata
             else Inl (FileNotFoundError p)),
      Quam_load =
        (\<lambda>p. if p = ''/data/#12_test//quam_state.json'' then state
             else Inl (FileNotFoundError p))\<rparr>"

section \<open>Properties of the handle-key parser\<close>

lemma first_digit_index_None:
  "first_digit_index digit i s = None \<longleftrightarrow> (\<forall>c\<in>set s. \<not> digit c)"
  by (induction s arbitrary: i) auto

lemma first_digit_index_Some:
  "\<exists>c\<in>set s. digit c \<Longrightarrow>
   first_digit_index digit i s = Some (i + length (takeWhile (\<lambda>c. \<not> digit c) s))"
proof (induction s arbitrary: i)
  case Nil
  then show ?case by simp
next
  case (Cons a s)
  show ?case
  proof (cases "digit a")
    case True
    then show ?thesis by simp
  next
    case False
    with Cons.prems have "\<exists>c\<in>set s. digit c" by auto
    from Cons.IH [OF this, of "Suc i"] False show ?thesis by simp
  qed
qed

text \<open>
  C2 (as amended). For every string, over every alphabet and with \<open>digit\<close> standing for
  \<^verbatim>\<open>str.isdigit\<close>, \<open>extract_string\<close> returns the longest leading part without a
  character that passes the test whenever the string holds such a character; this is the
  empty string, not \<open>None\<close>, when the string begins with one. It returns \<open>None\<close>
  exactly when no character of the string passes the test. The test is not the test for a
  decimal digit: it also holds for the superscript digits.
\<close>

theorem extract_string_prefix:
  "extract_string digit s =
     (if \<exists>c\<in>set s. digit c then Some (takeWhile (\<lambda>c. \<not> digit c) s) else None)"
proof (cases "\<exists>c\<in>set s. digit c")
  case True
  have "take (length (takeWhile (\<lambda>c. \<not> digit c) s)) s = takeWhile (\<lambda>c. \<not> digit c) s"
    by (metis append_eq_conv_conj takeWhile_dropWhile_id)
  with True show ?thesis
    using first_digit_index_Some [OF True, of 0] by (simp add: extract_string_def)
next
  case False
  then have "first_digit_index digit 0 s = None"
    by (simp add: first_digit_index_None)
  with False show ?thesis by (simp add: extract_string_def)
qed

theorem extract_string_prefix_witness:
  "(\<exists>c\<in>set ''I1''. isdigit c) \<and> extract_string isdigit ''I1'' = Some ''I''
   \<and> (\<exists>c\<in>set ''1I''. isdigit c) \<and> extract_string isdigit ''1I'' = Some []
   \<and> (\<exists>c\<in>set [CHR ''I'', CHR 0xB2, CHR ''1'']. isdigit c)
   \<and> extract_string isdigit [CHR ''I'', CHR 0xB2, CHR ''1''] = Some ''I''
   \<and> extract_string isdigit ''adc'' = None"
  using extract_string_prefix [of isdigit "''I1''"] extract_string_prefix [of isdigit "''1I''"]
    extract_string_prefix [of isdigit "[CHR ''I'', CHR 0xB2, CHR ''1'']"]
    extract_string_prefix [of isdigit "''adc''"]
  by (simp add: isdigit_def)

text \<open>The string \<^verbatim>\<open>"1I"\<close> begins with a digit, and the parser returns the empty string
  for it, not \<open>None\<close>. The string of \<^verbatim>\<open>I\<close> and superscript two holds no decimal digit,
  and the parser returns \<^verbatim>\<open>"I"\<close> for it, not \<open>None\<close>; when the decimal digit
  \<^verbatim>\<open>1\<close> follows, the parser still returns \<^verbatim>\<open>"I"\<close>, not the part before that \<^verbatim>\<open>1\<close>.\<close>

theorem extract_string_leading_digit_counterexample:
  "isdigit (hd ''1I'') \<and> extract_string isdigit ''1I'' = Some []
   \<and> extract_string isdigit ''1I'' \<noteq> None
   \<and> CHR 0xB2 \<notin> set ''0123456789''
   \<and> extract_string isdigit [CHR ''I'', CHR 0xB2] = Some ''I''
   \<and> extract_string isdigit [CHR ''I'', CHR 0xB2] \<noteq> None
   \<and> extract_string isdigit [CHR ''I'', CHR 0xB2, CHR ''1''] = Some ''I''
   \<and> extract_string isdigit [CHR ''I'', CHR 0xB2, CHR ''1''] \<noteq> Some [CHR ''I'', CHR 0xB2]"
  by (simp add: extract_string_def isdigit_def)

section \<open>Properties of the folder locator\<close>

lemma find_append_cases:
  "find P (xs @ ys) = (case find P xs of Some x \<Rightarrow> Some x | None \<Rightarrow> find P ys)"
  by (induction xs) auto

lemma find_Pair_filter:
  "find (\<lambda>(r, d). Q d) (map (Pair root) dirs) =
     (case filter Q dirs of [] \<Rightarrow> None | d # ds \<Rightarrow> Some (root, d))"
  by (induction dirs) auto

lemma first_match_find:
  "first_match pre triples =
     map_option (\<lambda>(root, d). os_path_join root d)
       (find (\<lambda>(root, d). startswith d pre \<and> length pre < length d)
         (concat (map (\<lambda>(root, dirs, files). map (Pair root) dirs) triples)))"
proof (induction triples)
  case Nil
  then show ?case by simp
next
  case (Cons t triples)
  obtain root dirs files where t: "t = (root, dirs, files)" by (cases t)
  show ?case
    using Cons.IH
    by (simp add: t find_append_cases find_Pair_filter split: list.splits)
qed

lemma search_prefix_PyInt: "search_prefix (PyInt n) = ''#'' @ str_int n @ ''_''"
  by (simp add: search_prefix_def)

lemma numbered_name_iff:
  "numbered_name n d \<longleftrightarrow>
     startswith d (search_prefix (PyInt n)) \<and> length (search_prefix (PyInt n)) < length d"
  unfolding numbered_name_def startswith_def search_prefix_PyInt by simp

lemma find_numbered_folder_find:
  "find_numbered_folder tree base_path (PyInt n) =
     map_option (\<lambda>(root, d). os_path_join root d)
       (find (\<lambda>(root, d). numbered_name n d) (walk_order_dirs tree base_path))"
  unfolding find_numbered_folder_def first_match_find walk_order_dirs_def numbered_name_iff
  by simp


lemma walk_dirs_simps [simp]:
  "walk_dirs [] = []"
  "walk_dirs ((root, dirs, files) # ts) = map (Pair root) dirs @ walk_dirs ts"
  "walk_dirs (ts @ us) = walk_dirs ts @ walk_dirs us"
  by (simp_all add: walk_dirs_def)

lemma set_dirs_walk_nodes_aux:
  assumes "\<And>e p. e \<in> set es \<Longrightarrow>
     snd ` set (walk_dirs (walk_node p e)) \<union> set (dirnames [e]) = set (dirs_below e)"
  shows "snd ` set (walk_dirs (walk_nodes p es)) \<union> set (dirnames es) = set (dirs_below_all es)"
  using assms
proof (induction es)
  case Nil
  then show ?case by simp
next
  case (Cons e es)
  have tail: "snd ` set (walk_dirs (walk_nodes p es)) \<union> set (dirnames es) = set (dirs_below_all es)"
    using Cons by simp
  have head: "snd ` set (walk_dirs (walk_node p e)) \<union> set (dirnames [e]) = set (dirs_below e)"
    using Cons.prems by simp
  have "set (dirnames (e # es)) = set (dirnames [e]) \<union> set (dirnames es)"
    by (cases e) simp_all
  with head tail show ?case
    by (simp add: image_Un) blast
qed

lemma set_dirs_walk_node:
  "snd ` set (walk_dirs (walk_node p e)) \<union> set (dirnames [e]) = set (dirs_below e)"
proof (induction e arbitrary: p)
  case (File f)
  then show ?case by simp
next
  case (Dir d sub)
  have "snd ` set (walk_dirs (walk_nodes (os_path_join p d) sub)) \<union> set (dirnames sub)
          = set (dirs_below_all sub)"
    by (rule set_dirs_walk_nodes_aux) (use Dir in simp)
  then show ?case
    by (simp add: image_Un image_image) blast
qed

lemma set_dirs_walk_nodes:
  "snd ` set (walk_dirs (walk_nodes p es)) \<union> set (dirnames es) = set (dirs_below_all es)"
  by (rule set_dirs_walk_nodes_aux) (rule set_dirs_walk_node)

lemma set_walk_order_dirs:
  "snd ` set (walk_order_dirs tree base_path) = set (dirs_under tree)"
proof (cases tree)
  case None
  then show ?thesis by (simp add: walk_order_dirs_def dirs_under_def os_walk_def)
next
  case (Some entries)
  have "walk_order_dirs tree base_path = walk_dirs (os_walk tree base_path)"
    by (simp add: walk_order_dirs_def walk_dirs_def)
  then show ?thesis
    using set_dirs_walk_nodes [of base_path entries] Some
    by (simp add: os_walk_def dirs_under_def image_Un image_image) blast
qed

lemma find_None_snd:
  "find (\<lambda>(root, d). Q d) xs = None \<longleftrightarrow> (\<forall>d\<in>snd ` set xs. \<not> Q d)"
  by (induction xs) auto

text \<open>
  C6. For every directory tree at the root path and every integer \<open>n\<close>,
  \<open>find_numbered_folder\<close> returns the first directory in walk order whose name starts
  with \<^verbatim>\<open>#<n>_\<close> and is strictly longer than that prefix, joined to the directory that
  holds it; it returns \<open>None\<close> exactly when no directory anywhere under the root has
  such a name. The name \<^verbatim>\<open>#70_bar\<close> is no match for 7, and a root holding
  \<^verbatim>\<open>#7_foo\<close> and \<^verbatim>\<open>#70_bar\<close>, in either order, yields the folder \<^verbatim>\<open>#7_foo\<close>.
\<close>

theorem find_numbered_folder_first_in_walk_order:
  "find_numbered_folder tree base_path (PyInt n) =
     map_option (\<lambda>(root, d). os_path_join root d)
       (find (\<lambda>(root, d). numbered_name n d) (walk_order_dirs tree base_path))
   \<and> (find_numbered_folder tree base_path (PyInt n) = None
        \<longleftrightarrow> (\<forall>d\<in>set (dirs_under tree). \<not> numbered_name n d))
   \<and> numbered_name 7 ''#7_foo'' \<and> \<not> numbered_name 7 ''#70_bar''
   \<and> find_numbered_folder (Some [Dir ''#70_bar'' [], Dir ''#7_foo'' []]) ''/data'' (PyInt 7)
        = Some ''/data/#7_foo''
   \<and> find_numbered_folder (Some [Dir ''#7_foo'' [], Dir ''#70_bar'' []]) ''/data'' (PyInt 7)
        = Some ''/data/#7_foo''"
proof -
  have first: "find_numbered_folder tree base_path (PyInt n) =
     map_option (\<lambda>(root, d). os_path_join root d)
       (find (\<lambda>(root, d). numbered_name n d) (walk_order_dirs tree base_path))"
    by (rule find_numbered_folder_find)
  have none: "find_numbered_folder tree base_path (PyInt n) = None
        \<longleftrightarrow> (\<forall>d\<in>set (dirs_under tree). \<not> numbered_name n d)"
    unfolding first by (simp add: find_None_snd set_walk_order_dirs)
  have names: "numbered_name 7 ''#7_foo'' \<and> \<not> numbered_name 7 ''#70_bar''"
    by (simp add: numbered_name_def str_int_def digit_char_def)
  have ex1: "find_numbered_folder (Some [Dir ''#70_bar'' [], Dir ''#7_foo'' []]) ''/data'' (PyInt 7)
        = Some ''/data/#7_foo''"
    by (simp add: find_numbered_folder_def os_walk_def search_prefix_def str_int_def
        digit_char_def startswith_def endswith_def os_path_join_def)
  have ex2: "find_numbered_folder (Some [Dir ''#7_foo'' [], Dir ''#70_bar'' []]) ''/data'' (PyInt 7)
        = Some ''/data/#7_foo''"
    by (simp add: find_numbered_folder_def os_walk_def search_prefix_def str_int_def
        digit_char_def startswith_def endswith_def os_path_join_def)
  from first none names ex1 ex2 show ?thesis by blast
qed

theorem find_numbered_folder_first_in_walk_order_witness:
  "find_numbered_folder (Some [Dir ''runs'' [Dir ''#7_deep'' []], Dir ''#70_bar'' [], Dir ''#7_foo'' []])
       ''/data'' (PyInt 7) = Some ''/data/#7_foo''
   \<and> find_numbered_folder (Some [Dir ''runs'' [Dir ''#7_deep'' []], Dir ''#70_bar'' []])
       ''/data'' (PyInt 7) = Some ''/data/runs/#7_deep''
   \<and> find_numbered_folder (Some [Dir ''runs'' [Dir ''#7_deep'' []], Dir ''#70_bar'' []])
       ''/data'' (PyInt 8) = None
   \<and> dirs_under (Some [Dir ''runs'' [Dir ''#7_deep'' []], Dir ''#70_bar'' []])
       = [''runs'', ''#7_deep'', ''#70_bar'']"
  using find_numbered_folder_first_in_walk_order
    [of "Some [Dir ''runs'' [Dir ''#7_deep'' []], Dir ''#70_bar'' [], Dir ''#7_foo'' []]" "''/data''" 7]
    find_numbered_folder_first_in_walk_order
    [of "Some [Dir ''runs'' [Dir ''#7_deep'' []], Dir ''#70_bar'' []]" "''/data''" 7]
    find_numbered_folder_first_in_walk_order
    [of "Some [Dir ''runs'' [Dir ''#7_deep'' []], Dir ''#70_bar'' []]" "''/data''" 8]
  by (simp add: walk_order_dirs_def os_walk_def numbered_name_def str_int_def digit_char_def
      startswith_def endswith_def os_path_join_def dirs_under_def)

section \<open>Properties of the dataset loader\<close>

lemmas example_defs = load_dataset_def load_bundle_def os_listdir_def find_numbered_folder_def
  os_walk_def search_prefix_def str_int_def digit_char_def startswith_def endswith_def
  os_path_join_def split_first_def get_storage_path_def example_env_def example_dataset_def
  example_machine_def example_metadata_def dataset_qubit_values_def machine_getitem_def
  json_getitem_def json_contains_def Let_def

lemma load_bundle_trace_prefix:
  "\<exists>rest. snd (load_bundle env base_folder filename json_filename parameters trace) = trace @ rest"
  by (simp add: load_bundle_def Let_def split: option.splits sum.splits)

lemma load_dataset_checked:
  assumes "isinstance_int serial_number"
  shows "\<exists>rest. snd (load_dataset env serial_number target_filename parameters) =
           [GetSettings, Walk (get_storage_path env),
            Listdir (find_numbered_folder (storage_tree env) (get_storage_path env) serial_number)]
           @ rest"
proof -
  let ?trace = "[GetSettings, Walk (get_storage_path env),
            Listdir (find_numbered_folder (storage_tree env) (get_storage_path env) serial_number)]"
  have "\<exists>rest. snd (load_bundle env b f j parameters ?trace) = ?trace @ rest" for b f j
    by (rule load_bundle_trace_prefix)
  with assms show ?thesis
    by (simp add: load_dataset_def Let_def split: sum.splits)
qed

lemma not_int_or_bool:
  "(\<forall>n. serial_number \<noteq> PyInt n) \<Longrightarrow> (\<forall>b. serial_number \<noteq> PyBool b)
     \<Longrightarrow> \<not> isinstance_int serial_number"
  by (cases serial_number) auto

lemma first_of_filter_filter:
  "(case filter P (filter Q xs) of [] \<Rightarrow> None | x # ys \<Rightarrow> Some x) = find (\<lambda>x. Q x \<and> P x) xs"
  by (induction xs) auto

lemma find_None_filter: "find P xs = None \<longleftrightarrow> filter P xs = []"
  by (induction xs) auto

lemma selected_filename:
  "(if target \<in> set (map (split_first CHR ''.'') [f \<leftarrow> entries. endswith f ''.h5''])
    then (case [file \<leftarrow> [f \<leftarrow> entries. endswith f ''.h5'']. target = split_first CHR ''.'' file] of
            file # others \<Rightarrow> Some file
          | [] \<Rightarrow> None)
    else None)
   = find (\<lambda>f. endswith f ''.h5'' \<and> target = split_first CHR ''.'' f) entries"
proof (cases "find (\<lambda>f. endswith f ''.h5'' \<and> target = split_first CHR ''.'' f) entries")
  case None
  then have "\<forall>f\<in>set entries. \<not> (endswith f ''.h5'' \<and> target = split_first CHR ''.'' f)"
    by (simp add: find_None_iff)
  then have "target \<notin> set (map (split_first CHR ''.'') [f \<leftarrow> entries. endswith f ''.h5''])"
    by auto
  with None show ?thesis by simp
next
  case (Some fname)
  have "(case [file \<leftarrow> [f \<leftarrow> entries. endswith f ''.h5'']. target = split_first CHR ''.'' file] of
            [] \<Rightarrow> None | file # others \<Rightarrow> Some file) = Some fname"
    using first_of_filter_filter [of "\<lambda>file. target = split_first CHR ''.'' file"
        "\<lambda>f. endswith f ''.h5''" entries] Some by simp
  moreover have "target \<in> set (map (split_first CHR ''.'') [f \<leftarrow> entries. endswith f ''.h5''])"
    using Some by (auto simp: find_Some_iff in_set_conv_nth)
  ultimately show ?thesis using Some by simp
qed

lemma load_dataset_reaches_bundle:
  assumes int: "isinstance_int serial_number"
    and folder: "find_numbered_folder (storage_tree env) (get_storage_path env) serial_number
                   = base_folder"
    and listing: "os_listdir env base_folder = Inr entries"
    and some_h5: "\<exists>f\<in>set entries. endswith f ''.h5''"
  shows "load_dataset env serial_number target parameters =
           load_bundle env base_folder
             (find (\<lambda>f. endswith f ''.h5'' \<and> target = split_first CHR ''.'' f) entries)
             ''data.json'' parameters
             [GetSettings, Walk (get_storage_path env), Listdir base_folder]"
proof -
  from some_h5 have ne: "[f \<leftarrow> entries. endswith f ''.h5''] \<noteq> []"
    by (auto simp: filter_empty_conv)
  show ?thesis
    unfolding selected_filename [symmetric] load_dataset_def Let_def
    using int folder listing ne by simp
qed

lemma load_dataset_no_data_files:
  assumes int: "isinstance_int serial_number"
    and folder: "find_numbered_folder (storage_tree env) (get_storage_path env) serial_number
                   = base_folder"
    and listing: "os_listdir env base_folder = Inr entries"
    and no_h5: "\<forall>f\<in>set entries. \<not> endswith f ''.h5''"
  shows "load_dataset env serial_number target parameters =
           (Inr NoBundle,
            [GetSettings, Walk (get_storage_path env), Listdir base_folder,
             Print (''No .nc file found in folder: ''
                      @ (case base_folder of None \<Rightarrow> ''None'' | Some folder \<Rightarrow> folder))])"
proof -
  from no_h5 have "[f \<leftarrow> entries. endswith f ''.h5''] = []"
    by (auto simp: filter_empty_conv)
  then show ?thesis
    unfolding load_dataset_def Let_def
    using int folder listing by simp
qed

text \<open>
  C1 (the code fails the claim). When the folder locator returns \<open>None\<close>, the loader has
  no guard: \<^verbatim>\<open>os.listdir(None)\<close> lists the current directory, and as soon as that
  directory holds a file with the data extension the loader reaches
  \<^verbatim>\<open>os.path.join(None, filename)\<close> and a \<^verbatim>\<open>TypeError\<close> escapes. (With no such file in
  the current directory the loader prints and returns \<^verbatim>\<open>None\<close>:
  \<open>load_dataset_no_data_files\<close>.)
\<close>

theorem load_dataset_missing_folder_raises:
  assumes int: "isinstance_int serial_number"
    and missing: "find_numbered_folder (storage_tree env) (get_storage_path env) serial_number = None"
    and cwd: "\<exists>f\<in>set (cwd_entries env). endswith f ''.h5''"
  shows "load_dataset env serial_number target parameters =
           (Inl (TypeError ''expected str, bytes or os.PathLike object, not NoneType''),
            [GetSettings, Walk (get_storage_path env), Listdir None])"
proof -
  have listing: "os_listdir env None = Inr (cwd_entries env)"
    by (simp add: os_listdir_def)
  show ?thesis
    unfolding load_dataset_reaches_bundle [OF int missing listing cwd]
    by (simp add: load_bundle_def)
qed

theorem load_dataset_missing_folder_raises_witness:
  "load_dataset
     (example_env [Dir ''#11_test'' [File ''ds.h5'']] [''notes.txt'', ''ds.h5'']
        [PyStr ''q1'', PyStr ''q2''] (Inr example_machine))
     (PyInt 12) ''ds'' None
   = (Inl (TypeError ''expected str, bytes or os.PathLike object, not NoneType''),
      [GetSettings, Walk ''/data'', Listdir None])"
proof -
  let ?env = "example_env [Dir ''#11_test'' [File ''ds.h5'']] [''notes.txt'', ''ds.h5'']
        [PyStr ''q1'', PyStr ''q2''] (Inr example_machine)"
  have int: "isinstance_int (PyInt 12)" by simp
  have missing: "find_numbered_folder (storage_tree ?env) (get_storage_path ?env) (PyInt 12) = None"
    by (simp add: example_defs)
  have cwd: "\<exists>f\<in>set (cwd_entries ?env). endswith f ''.h5''"
    by (simp add: example_defs)
  from load_dataset_missing_folder_raises [OF int missing cwd, of "''ds''" None]
  show ?thesis by (simp add: example_defs)
qed

text \<open>
  C3 (the code fails the claim). When the resolved folder holds a file with the data
  extension but none whose name before the first dot is \<open>target\<close>, the selected
  filename is \<^verbatim>\<open>None\<close> and the branch \<^verbatim>\<open>if nc_files:\<close> is still taken:
  \<^verbatim>\<open>os.path.join(base_folder, None)\<close> raises a \<^verbatim>\<open>TypeError\<close>. No dataset is opened,
  but the loader fails on the absent filename.
\<close>

theorem load_dataset_unmatched_target_raises:
  assumes int: "isinstance_int serial_number"
    and found: "find_numbered_folder (storage_tree env) (get_storage_path env) serial_number
                  = Some folder"
    and listing: "os_listdir env (Some folder) = Inr entries"
    and some_h5: "\<exists>f\<in>set entries. endswith f ''.h5''"
    and no_match: "\<forall>f\<in>set entries. endswith f ''.h5'' \<longrightarrow> split_first CHR ''.'' f \<noteq> target"
  shows "load_dataset env serial_number target parameters =
           (Inl (TypeError
              ''join() argument must be str, bytes, or os.PathLike object, not NoneType''),
            [GetSettings, Walk (get_storage_path env), Listdir (Some folder)])"
proof -
  from no_match
  have "find (\<lambda>f. endswith f ''.h5'' \<and> target = split_first CHR ''.'' f) entries = None"
    by (auto simp: find_None_iff)
  then show ?thesis
    unfolding load_dataset_reaches_bundle [OF int found listing some_h5]
    by (simp add: load_bundle_def)
qed

theorem load_dataset_unmatched_target_raises_witness:
  "load_dataset
     (example_env [Dir ''#12_test'' [File ''other.h5'', File ''data.json'']] []
        [PyStr ''q1'', PyStr ''q2''] (Inr example_machine))
     (PyInt 12) ''ds'' None
   = (Inl (TypeError ''join() argument must be str, bytes, or os.PathLike object, not NoneType''),
      [GetSettings, Walk ''/data'', Listdir (Some ''/data/#12_test'')])"
proof -
  let ?env = "example_env [Dir ''#12_test'' [File ''other.h5'', File ''data.json'']] []
        [PyStr ''q1'', PyStr ''q2''] (Inr example_machine)"
  have int: "isinstance_int (PyInt 12)" by simp
  have found: "find_numbered_folder (storage_tree ?env) (get_storage_path ?env) (PyInt 12)
                 = Some ''/data/#12_test''"
    by (simp add: example_defs)
  have listing: "os_listdir ?env (Some ''/data/#12_test'') = Inr [''other.h5'', ''data.json'']"
    by (simp add: example_defs)
  have some_h5: "\<exists>f\<in>set [''other.h5'', ''data.json'']. endswith f ''.h5''"
    by (simp add: endswith_def)
  have no_match: "\<forall>f\<in>set [''other.h5'', ''data.json''].
      endswith f ''.h5'' \<longrightarrow> split_first CHR ''.'' f \<noteq> ''ds''"
    by (simp add: endswith_def split_first_def)
  from load_dataset_unmatched_target_raises [OF int found listing some_h5 no_match, of None]
  show ?thesis by (simp add: example_defs)
qed


lemma map_of_dict_set: "map_of (dict_set d k v) = (map_of d)(k \<mapsto> v)"
  by (induction d) (auto simp: fun_eq_iff)

lemma map_fst_dict_set: "k \<in> fst ` set d \<Longrightarrow> map fst (dict_set d k v) = map fst d"
  by (induction d) force+

lemma overlay_parameters_object:
  assumes ip: "json_getitem json_data ''initial_parameters'' = Inr (Object ip)"
    and sub: "fst ` set rest \<subseteq> fst ` set acc"
  shows "\<exists>ps'. overlay_parameters rest json_data acc = Inr ps'
           \<and> map fst ps' = map fst acc
           \<and> (\<forall>k. map_of ps' k =
                 (if k \<in> fst ` set rest \<and> k \<noteq> ''load_data_id'' \<and> k \<in> fst ` set ip
                  then map_of ip k else map_of acc k))"
  using sub
proof (induction rest arbitrary: acc)
  case Nil
  then show ?case by simp
next
  case (Cons pair rest)
  obtain param_name param_value where pair: "pair = (param_name, param_value)"
    by (cases pair)
  from Cons.prems pair have in_acc: "param_name \<in> fst ` set acc" and
    rest_sub: "fst ` set rest \<subseteq> fst ` set acc" by auto
  show ?case
  proof (cases "param_name \<noteq> ''load_data_id'' \<and> param_name \<in> fst ` set ip")
    case False
    from Cons.IH [OF rest_sub] obtain ps' where
      ps': "overlay_parameters rest json_data acc = Inr ps'" "map fst ps' = map fst acc"
        "\<forall>k. map_of ps' k =
           (if k \<in> fst ` set rest \<and> k \<noteq> ''load_data_id'' \<and> k \<in> fst ` set ip
            then map_of ip k else map_of acc k)"
      by blast
    have "json_contains (Object ip) param_name = Inr (param_name \<in> fst ` set ip)"
      by (simp add: json_contains_def)
    with False have "overlay_parameters (pair # rest) json_data acc = Inr ps'"
      using ps'(1) by (auto simp: pair ip)
    with ps' False show ?thesis
      by (auto simp: pair)
  next
    case True
    then obtain v where v: "map_of ip param_name = Some v"
      by (metis domD dom_map_of_conv_image_fst)
    let ?acc = "dict_set acc param_name v"
    have sub': "fst ` set rest \<subseteq> fst ` set ?acc"
      using rest_sub map_fst_dict_set [OF in_acc, of v]
      by (metis set_map)
    from Cons.IH [OF sub'] obtain ps' where
      ps': "overlay_parameters rest json_data ?acc = Inr ps'" "map fst ps' = map fst ?acc"
        "\<forall>k. map_of ps' k =
           (if k \<in> fst ` set rest \<and> k \<noteq> ''load_data_id'' \<and> k \<in> fst ` set ip
            then map_of ip k else map_of ?acc k)"
      by blast
    have present: "json_contains (Object ip) param_name = Inr True"
      using True by (simp add: json_contains_def)
    have stored: "json_getitem (Object ip) param_name = Inr v"
      using v by (simp add: json_getitem_def)
    from True have step: "overlay_parameters (pair # rest) json_data acc = Inr ps'"
      using ps'(1) by (simp add: pair ip present stored)
    have keys: "map fst ps' = map fst acc"
      using ps'(2) map_fst_dict_set [OF in_acc] by simp
    have vals: "map_of ps' k =
           (if k \<in> fst ` set (pair # rest) \<and> k \<noteq> ''load_data_id'' \<and> k \<in> fst ` set ip
            then map_of ip k else map_of acc k)" for k
      using ps'(3) True v by (auto simp: pair map_of_dict_set)
    from step keys vals show ?thesis by blast
  qed
qed

lemma load_bundle_cross_referenced:
  assumes ds: "xr_open_dataset env (os_path_join folder fname) = Inr ds"
    and meta: "json_load env (os_path_join folder ''data.json'') = Inr json_data"
    and qnames: "dataset_qubit_values ds = Inr qnames"
  shows "load_bundle env (Some folder) (Some fname) ''data.json'' parameters trace =
     (let machine = (case Quam_load env (folder @ ''//quam_state.json'') of
                       Inl e \<Rightarrow> None | Inr m \<Rightarrow> Some m);
          trace3 = trace @ [OpenDataset (os_path_join folder fname),
                            OpenFile (os_path_join folder ''data.json''),
                            LoadState (folder @ ''//quam_state.json'')]
                     @ (case Quam_load env (folder @ ''//quam_state.json'') of
                          Inl e \<Rightarrow> [Print (''Error loading machine: '' @ error_str e)]
                        | Inr m \<Rightarrow> [])
      in case cross_reference machine qnames of
           Inl e \<Rightarrow> (Inl e, trace3)
         | Inr qs \<Rightarrow>
             (case parameters of
                None \<Rightarrow> (Inr (Bundle4 ds machine json_data qs), trace3)
              | Some ps \<Rightarrow>
                  (case overlay_parameters ps json_data ps of
                     Inl e \<Rightarrow> (Inl e, trace3)
                   | Inr ps' \<Rightarrow> (Inr (Bundle5 ds machine json_data qs ps'), trace3))))"
  using ds meta qnames
  by (simp add: load_bundle_def Let_def split: sum.splits option.splits)


lemma find_Some_endswith:
  "find (\<lambda>f. endswith f ''.h5'' \<and> target = split_first CHR ''.'' f) entries = Some fname
     \<Longrightarrow> \<exists>f\<in>set entries. endswith f ''.h5''"
  by (auto simp: find_Some_iff)

lemma load_dataset_cross_referenced:
  assumes int: "isinstance_int serial_number"
    and found: "find_numbered_folder (storage_tree env) (get_storage_path env) serial_number
                  = Some folder"
    and listing: "os_listdir env (Some folder) = Inr entries"
    and selected: "find (\<lambda>f. endswith f ''.h5'' \<and> target = split_first CHR ''.'' f) entries
                     = Some fname"
    and ds: "xr_open_dataset env (os_path_join folder fname) = Inr ds"
    and meta: "json_load env (os_path_join folder ''data.json'') = Inr json_data"
    and qnames: "dataset_qubit_values ds = Inr qnames"
  shows "load_dataset env serial_number target parameters =
     (let machine = (case Quam_load env (folder @ ''//quam_state.json'') of
                       Inl e \<Rightarrow> None | Inr m \<Rightarrow> Some m);
          trace3 = [GetSettings, Walk (get_storage_path env), Listdir (Some folder)]
                     @ [OpenDataset (os_path_join folder fname),
                        OpenFile (os_path_join folder ''data.json''),
                        LoadState (folder @ ''//quam_state.json'')]
                     @ (case Quam_load env (folder @ ''//quam_state.json'') of
                          Inl e \<Rightarrow> [Print (''Error loading machine: '' @ error_str e)]
                        | Inr m \<Rightarrow> [])
      in case cross_reference machine qnames of
           Inl e \<Rightarrow> (Inl e, trace3)
         | Inr qs \<Rightarrow>
             (case parameters of
                None \<Rightarrow> (Inr (Bundle4 ds machine json_data qs), trace3)
              | Some ps \<Rightarrow>
                  (case overlay_parameters ps json_data ps of
                     Inl e \<Rightarrow> (Inl e, trace3)
                   | Inr ps' \<Rightarrow> (Inr (Bundle5 ds machine json_data qs ps'), trace3))))"
  unfolding load_dataset_reaches_bundle [OF int found listing find_Some_endswith [OF selected]]
    selected
  by (rule load_bundle_cross_referenced [OF ds meta qnames])

text \<open>
  C7. When the loader is given a parameters object and reaches the overlay (the folder is
  found, the data file is selected, dataset and metadata are read, every qubit name is
  found in the state, and the metadata has an \<^verbatim>\<open>initial_parameters\<close> mapping), it returns
  the 5-tuple; the returned parameters have the same attributes in the same order; the
  attribute \<^verbatim>\<open>load_data_id\<close> keeps its value; every other attribute whose name is in
  \<^verbatim>\<open>initial_parameters\<close> has the stored value, and every attribute whose name is not there
  keeps its value.
\<close>

theorem load_dataset_overlays_parameters:
  assumes int: "isinstance_int serial_number"
    and found: "find_numbered_folder (storage_tree env) (get_storage_path env) serial_number
                  = Some folder"
    and listing: "os_listdir env (Some folder) = Inr entries"
    and selected: "find (\<lambda>f. endswith f ''.h5'' \<and> target = split_first CHR ''.'' f) entries
                     = Some fname"
    and ds: "xr_open_dataset env (os_path_join folder fname) = Inr ds"
    and meta: "json_load env (os_path_join folder ''data.json'') = Inr json_data"
    and qnames: "dataset_qubit_values ds = Inr qnames"
    and state: "machine = (case Quam_load env (folder @ ''//quam_state.json'') of
                             Inl e \<Rightarrow> None | Inr m \<Rightarrow> Some m)"
    and xref: "cross_reference machine qnames = Inr qs"
    and initial: "json_getitem json_data ''initial_parameters'' = Inr (Object ip)"
  shows "\<exists>ps' trace.
           load_dataset env serial_number target (Some ps) =
             (Inr (Bundle5 ds machine json_data qs ps'), trace)
           \<and> map fst ps' = map fst ps
           \<and> map_of ps' ''load_data_id'' = map_of ps ''load_data_id''
           \<and> (\<forall>k\<in>fst ` set ps. k \<noteq> ''load_data_id'' \<longrightarrow>
                 (case map_of ip k of
                    Some v \<Rightarrow> map_of ps' k = Some v
                  | None \<Rightarrow> map_of ps' k = map_of ps k))"
proof -
  from overlay_parameters_object [OF initial subset_refl, of ps] obtain ps' where
    ps': "overlay_parameters ps json_data ps = Inr ps'" "map fst ps' = map fst ps"
      "\<forall>k. map_of ps' k =
         (if k \<in> fst ` set ps \<and> k \<noteq> ''load_data_id'' \<and> k \<in> fst ` set ip
          then map_of ip k else map_of ps k)"
    by blast
  have result: "\<exists>trace. load_dataset env serial_number target (Some ps) =
             (Inr (Bundle5 ds machine json_data qs ps'), trace)"
    unfolding load_dataset_cross_referenced [OF int found listing selected ds meta qnames]
    using xref ps'(1) by (simp add: state Let_def)
  have reserved: "map_of ps' ''load_data_id'' = map_of ps ''load_data_id''"
    using ps'(3) by simp
  have each: "case map_of ip k of
                Some v \<Rightarrow> map_of ps' k = Some v
              | None \<Rightarrow> map_of ps' k = map_of ps k"
    if "k \<in> fst ` set ps" "k \<noteq> ''load_data_id''" for k
  proof (cases "map_of ip k")
    case None
    then have "k \<notin> fst ` set ip"
      by (simp add: map_of_eq_None_iff)
    with None ps'(3) show ?thesis by simp
  next
    case (Some v)
    then have "k \<in> fst ` set ip"
      by (metis domI dom_map_of_conv_image_fst)
    with Some that ps'(3) show ?thesis by simp
  qed
  from result ps'(2) reserved each show ?thesis by blast
qed






text \<open>
  C8. For every serial number that is neither an \<^verbatim>\<open>int\<close> nor a \<^verbatim>\<open>bool\<close>, the loader
  fails with the \<^verbatim>\<open>ValueError\<close> and has made no access at all; for every integer, the
  loader passes the check: it reads the settings, walks the storage root and lists the
  folder that the locator returned.
\<close>

theorem load_dataset_requires_integer:
  "((\<forall>n. serial_number \<noteq> PyInt n) \<and> (\<forall>b. serial_number \<noteq> PyBool b) \<longrightarrow>
      load_dataset env serial_number target_filename parameters =
        (Inl (ValueError ''serial_number must be an integer''), []))
   \<and> (\<exists>rest. snd (load_dataset env (PyInt n) target_filename parameters) =
        [GetSettings, Walk (get_storage_path env),
         Listdir (find_numbered_folder (storage_tree env) (get_storage_path env) (PyInt n))]
        @ rest)"
proof -
  have "load_dataset env serial_number target_filename parameters =
        (Inl (ValueError ''serial_number must be an integer''), [])"
    if "\<forall>n. serial_number \<noteq> PyInt n" and "\<forall>b. serial_number \<noteq> PyBool b"
    using not_int_or_bool [OF that] by (simp add: load_dataset_def)
  moreover have "\<exists>rest. snd (load_dataset env (PyInt n) target_filename parameters) =
        [GetSettings, Walk (get_storage_path env),
         Listdir (find_numbered_folder (storage_tree env) (get_storage_path env) (PyInt n))]
        @ rest"
    by (rule load_dataset_checked) simp
  ultimately show ?thesis by blast
qed

theorem load_dataset_requires_integer_witness:
  "load_dataset
     (example_env [Dir ''#12_test'' [File ''ds.h5'', File ''data.json'']] []
        [PyStr ''q1''] (Inr example_machine))
     (PyStr ''12'') ''ds'' None
   = (Inl (ValueError ''serial_number must be an integer''), [])
   \<and> load_dataset
     (example_env [Dir ''#12_test'' [File ''ds.h5'', File ''data.json'']] []
        [PyStr ''q1''] (Inr example_machine))
     (PyFloat ''12.0'') ''ds'' None
   = (Inl (ValueError ''serial_number must be an integer''), [])
   \<and> (\<exists>rest. snd (load_dataset
     (example_env [Dir ''#12_test'' [File ''ds.h5'', File ''data.json'']] []
        [PyStr ''q1''] (Inr example_machine))
     (PyInt 12) ''ds'' None)
   = [GetSettings, Walk ''/data'', Listdir (Some ''/data/#12_test'')] @ rest)"
proof -
  let ?env = "example_env [Dir ''#12_test'' [File ''ds.h5'', File ''data.json'']] []
        [PyStr ''q1''] (Inr example_machine)"
  have folder: "find_numbered_folder (storage_tree ?env) (get_storage_path ?env) (PyInt 12)
                  = Some ''/data/#12_test''"
    by (simp add: example_defs)
  have root: "get_storage_path ?env = ''/data''"
    by (simp add: example_defs)
  from load_dataset_requires_integer [of "PyStr ''12''" ?env "''ds''" None 12]
    load_dataset_requires_integer [of "PyFloat ''12.0''" ?env "''ds''" None 12]
  show ?thesis by (simp add: folder [unfolded root] root)
qed

text \<open>
  C10. A boolean passes \<^verbatim>\<open>isinstance(serial_number, int)\<close>: the loader raises no
  \<^verbatim>\<open>ValueError\<close> for it and goes on to the folder search with the boolean as the number,
  that is, with the prefix \<^verbatim>\<open>#True_\<close> or \<^verbatim>\<open>#False_\<close>.
\<close>

theorem load_dataset_accepts_bool:
  "isinstance_int (PyBool b)
   \<and> search_prefix (PyBool b) = (if b then ''#True_'' else ''#False_'')
   \<and> (\<exists>rest. snd (load_dataset env (PyBool b) target_filename parameters) =
        [GetSettings, Walk (get_storage_path env),
         Listdir (find_numbered_folder (storage_tree env) (get_storage_path env) (PyBool b))]
        @ rest)
   \<and> load_dataset env (PyBool b) target_filename parameters
        \<noteq> (Inl (ValueError ''serial_number must be an integer''), [])"
proof -
  have t: "\<exists>rest. snd (load_dataset env (PyBool b) target_filename parameters) =
        [GetSettings, Walk (get_storage_path env),
         Listdir (find_numbered_folder (storage_tree env) (get_storage_path env) (PyBool b))]
        @ rest"
    by (rule load_dataset_checked) simp
  then have "snd (load_dataset env (PyBool b) target_filename parameters) \<noteq> []"
    by auto
  then have "load_dataset env (PyBool b) target_filename parameters
        \<noteq> (Inl (ValueError ''serial_number must be an integer''), [])"
    by auto
  with t show ?thesis by (simp add: search_prefix_def)
qed

theorem load_dataset_accepts_bool_witness:
  "(\<exists>rest. snd (load_dataset
     (example_env [Dir ''#1_run'' [File ''ds.h5''], Dir ''#True_run'' [File ''ds.h5'']] []
        [PyStr ''q1''] (Inr example_machine))
     (PyBool True) ''ds'' None)
   = [GetSettings, Walk ''/data'', Listdir (Some ''/data/#True_run'')] @ rest)"
proof -
  let ?env = "example_env [Dir ''#1_run'' [File ''ds.h5''], Dir ''#True_run'' [File ''ds.h5'']] []
        [PyStr ''q1''] (Inr example_machine)"
  have folder: "find_numbered_folder (storage_tree ?env) (get_storage_path ?env) (PyBool True)
                  = Some ''/data/#True_run''"
    by (simp add: example_defs)
  have root: "get_storage_path ?env = ''/data''"
    by (simp add: example_defs)
  from load_dataset_accepts_bool [of True ?env "''ds''" None]
  show ?thesis by (simp add: folder [unfolded root] root)
qed

theorem load_dataset_overlays_parameters_witness:
  "\<exists>ps' trace.
     load_dataset
       (example_env [Dir ''#12_test'' [File ''ds.h5'', File ''data.json'', File ''quam_state.json'']]
          [] [PyStr ''q1'', PyStr ''q2''] (Inr example_machine))
       (PyInt 12) ''ds''
       (Some [(''amplitude'', Atom (PyFloat ''0.1'')), (''load_data_id'', Atom (PyInt 3)),
              (''shots'', Atom (PyInt 100))])
     = (Inr (Bundle5 (example_dataset [PyStr ''q1'', PyStr ''q2'']) (Some example_machine)
               example_metadata [\<lparr>name = ''q1''\<rparr>, \<lparr>name = ''q2''\<rparr>] ps'), trace)
     \<and> map fst ps' = [''amplitude'', ''load_data_id'', ''shots'']
     \<and> map_of ps' ''amplitude'' = Some (Atom (PyFloat ''0.5''))
     \<and> map_of ps' ''load_data_id'' = Some (Atom (PyInt 3))
     \<and> map_of ps' ''shots'' = Some (Atom (PyInt 100))"
proof -
  let ?env = "example_env [Dir ''#12_test'' [File ''ds.h5'', File ''data.json'', File ''quam_state.json'']]
          [] [PyStr ''q1'', PyStr ''q2''] (Inr example_machine)"
  let ?ps = "[(''amplitude'', Atom (PyFloat ''0.1'')), (''load_data_id'', Atom (PyInt 3)),
              (''shots'', Atom (PyInt 100))]"
  have int: "isinstance_int (PyInt 12)" by simp
  have found: "find_numbered_folder (storage_tree ?env) (get_storage_path ?env) (PyInt 12)
                 = Some ''/data/#12_test''"
    by (simp add: example_defs)
  have listing: "os_listdir ?env (Some ''/data/#12_test'')
                   = Inr [''ds.h5'', ''data.json'', ''quam_state.json'']"
    by (simp add: example_defs)
  have selected: "find (\<lambda>f. endswith f ''.h5'' \<and> ''ds'' = split_first CHR ''.'' f)
                    [''ds.h5'', ''data.json'', ''quam_state.json''] = Some ''ds.h5''"
    by (simp add: endswith_def split_first_def)
  have ds: "xr_open_dataset ?env (os_path_join ''/data/#12_test'' ''ds.h5'')
              = Inr (example_dataset [PyStr ''q1'', PyStr ''q2''])"
    by (simp add: example_env_def os_path_join_def startswith_def endswith_def)
  have meta: "json_load ?env (os_path_join ''/data/#12_test'' ''data.json'') = Inr example_metadata"
    by (simp add: example_env_def os_path_join_def startswith_def endswith_def)
  have qnames: "dataset_qubit_values (example_dataset [PyStr ''q1'', PyStr ''q2''])
                  = Inr [PyStr ''q1'', PyStr ''q2'']"
    by (simp add: dataset_qubit_values_def example_dataset_def)
  have state: "Some example_machine =
                 (case Quam_load ?env (''/data/#12_test'' @ ''//quam_state.json'') of
                    Inl e \<Rightarrow> None | Inr m \<Rightarrow> Some m)"
    by (simp add: example_env_def)
  have xref: "cross_reference (Some example_machine) [PyStr ''q1'', PyStr ''q2'']
                = Inr [\<lparr>name = ''q1''\<rparr>, \<lparr>name = ''q2''\<rparr>]"
    by (simp add: machine_getitem_def example_machine_def)
  have initial: "json_getitem example_metadata ''initial_parameters''
                   = Inr (Object [(''amplitude'', Atom (PyFloat ''0.5'')),
                                  (''load_data_id'', Atom (PyInt 7))])"
    by (simp add: json_getitem_def example_metadata_def)
  from load_dataset_overlays_parameters
    [OF int found listing selected ds meta qnames state xref initial, of ?ps]
  show ?thesis by auto
qed



section \<open>Properties of the dataset assemblers\<close>

lemma two_element_orders:
  assumes "distinct xs" "set xs = {a, b}" "a \<noteq> b"
  shows "xs = [a, b] \<or> xs = [b, a]"
proof -
  from assms have "length xs = 2"
    by (metis card_2_iff distinct_card)
  then obtain x y where xs: "xs = [x, y]"
    by (metis (no_types, opaque_lifting) One_nat_def Suc_1 length_0_conv length_Suc_conv)
  with assms show ?thesis by auto
qed

lemma parsed_IQ: "parsed_handles [''I1'', ''I2'', ''Q1'', ''Q2''] = [''I'', ''I'', ''Q'', ''Q'']"
  by (simp add: parsed_handles_def extract_string_def isdigit_def)


lemma xr_Dataset_Inr:
  "xr_Dataset vars cs = Inr ds \<Longrightarrow> data_vars ds = vars \<and> coords ds = cs"
  by (auto simp: xr_Dataset_def split: if_splits)

lemma fetch_results_as_xarray_dims:
  assumes "fetch_results_as_xarray set_order handles qs measurement_axis = Inr ds"
  shows "coords ds =
           rev (dict_set measurement_axis ''qubit'' (Sequence (map (\<lambda>q. PyStr (name q)) qs)))
     \<and> (\<forall>(v, dims, a)\<in>set (data_vars ds). dims = map fst (coords ds))"
proof -
  let ?axis = "rev (dict_set measurement_axis ''qubit'' (Sequence (map (\<lambda>q. PyStr (name q)) qs)))"
  from assms obtain vars where "xr_Dataset (map (\<lambda>(meas_var, a). (meas_var, map fst ?axis, a)) vars) ?axis = Inr ds"
    by (auto simp: fetch_results_as_xarray_def Let_def split: sum.splits)
  from xr_Dataset_Inr [OF this] show ?thesis by auto
qed

lemma fetch_IQ_example:
  assumes order: "set_iteration set_order"
    and shapes: "shape aI1 = [3]" "shape aI2 = [3]" "shape aQ1 = [3]" "shape aQ2 = [3]"
  shows "\<exists>ds.
      fetch_results_as_xarray set_order
        [(''I1'', aI1), (''I2'', aI2), (''Q1'', aQ1), (''Q2'', aQ2)] [q1, q2]
        [(''freq'', Sequence [f0, f1, f2])] = Inr ds
      \<and> fst ` set (data_vars ds) = {''I'', ''Q''}
      \<and> map_of (data_vars ds) ''I''
            = Some ([''qubit'', ''freq''], \<lparr>shape = [2, 3], data = data aI1 @ data aI2\<rparr>)
      \<and> map_of (data_vars ds) ''Q''
            = Some ([''qubit'', ''freq''], \<lparr>shape = [2, 3], data = data aQ1 @ data aQ2\<rparr>)
      \<and> coords ds = [(''qubit'', Sequence [PyStr (name q1), PyStr (name q2)]),
                      (''freq'', Sequence [f0, f1, f2])]"
proof -
  let ?vars = "set_order (parsed_handles (map fst [(''I1'', aI1), (''I2'', aI2), (''Q1'', aQ1), (''Q2'', aQ2)]))"
  have "distinct ?vars" and "set ?vars = {''I'', ''Q''}"
    using order by (auto simp: set_iteration_def parsed_IQ)
  then consider "?vars = [''I'', ''Q'']" | "?vars = [''Q'', ''I'']"
    using two_element_orders [of ?vars "''I''" "''Q''"] by auto
  then show ?thesis
  proof cases
    case 1
    then show ?thesis
      using shapes
      by (simp add: fetch_results_as_xarray_def handle_fetch_all_def np_array_nested_def
          np_array_def shape_last_def xr_Dataset_def dim_sizes_def scalar_coords_def
          digit_char_def Let_def)
  next
    case 2
    then show ?thesis
      using shapes
      by (simp add: fetch_results_as_xarray_def handle_fetch_all_def np_array_nested_def
          np_array_def shape_last_def xr_Dataset_def dim_sizes_def scalar_coords_def
          digit_char_def Let_def insert_commute)
  qed
qed


lemma index_of_Some:
  "index_of xs x = Some k \<Longrightarrow> k < length xs \<and> xs ! k = x \<and> (\<forall>j<k. xs ! j \<noteq> x)"
proof (induction xs arbitrary: k)
  case Nil
  then show ?case by simp
next
  case (Cons y ys)
  show ?case
  proof (cases "y = x")
    case True
    with Cons.prems show ?thesis by simp
  next
    case False
    with Cons.prems obtain k' where k': "index_of ys x = Some k'" "k = Suc k'"
      by auto
    from Cons.IH [OF k'(1)] False k'(2) show ?thesis
      by (auto simp: nth_Cons split: nat.splits)
  qed
qed

lemma index_of_member: "x \<in> set xs \<Longrightarrow> \<exists>k. index_of xs x = Some k"
  by (induction xs) auto

lemma sequence_results_map_Inr:
  "(\<And>x. x \<in> set xs \<Longrightarrow> f x = Inr (g x)) \<Longrightarrow> sequence_results (map f xs) = Inr (map g xs)"
  by (induction xs) auto

lemma sort_eq_iff_mset: "sort xs = sort ys \<longleftrightarrow> mset xs = mset ys" for xs ys :: "int list"
proof
  assume "sort xs = sort ys"
  then have "mset (sort xs) = mset (sort ys)" by simp
  then show "mset xs = mset ys" by simp
next
  assume "mset xs = mset ys"
  then show "sort xs = sort ys"
    by (metis mset_sort properties_for_sort sorted_sort)
qed

lemma shape_index_positions:
  assumes "set expected \<subseteq> set (map int shp)"
  shows "sequence_results (map (shape_index shp) expected) = Inr (first_positions shp expected)"
  unfolding first_positions_def
proof (rule sequence_results_map_Inr)
  fix s assume "s \<in> set expected"
  with assms obtain k where "index_of (map int shp) s = Some k"
    using index_of_member by (metis subsetD)
  then show "shape_index shp s = Inr (case index_of (map int shp) s of Some k \<Rightarrow> k | None \<Rightarrow> 0)"
    by (simp add: shape_index_def)
qed

lemma first_positions_props:
  assumes "set expected \<subseteq> set (map int shp)"
  shows "length (first_positions shp expected) = length expected"
    and "\<forall>p\<in>set (first_positions shp expected). p < length shp"
    and "map (\<lambda>p. int (shp ! p)) (first_positions shp expected) = expected"
proof -
  show "length (first_positions shp expected) = length expected"
    by (simp add: first_positions_def)
  have each: "\<exists>k. index_of (map int shp) s = Some k \<and> k < length shp \<and> int (shp ! k) = s"
    if "s \<in> set expected" for s
  proof -
    from that assms obtain k where k: "index_of (map int shp) s = Some k"
      using index_of_member by (metis subsetD)
    from index_of_Some [OF k] have "k < length shp" "map int shp ! k = s" by auto
    with k show ?thesis by auto
  qed
  show "\<forall>p\<in>set (first_positions shp expected). p < length shp"
    using each by (fastforce simp: first_positions_def)
  show "map (\<lambda>p. int (shp ! p)) (first_positions shp expected) = expected"
    unfolding first_positions_def map_map
    by (rule map_idI) (use each in fastforce)
qed

lemma first_positions_distinct_iff:
  assumes "set expected \<subseteq> set (map int shp)"
  shows "distinct (first_positions shp expected) \<longleftrightarrow> distinct expected"
proof
  assume "distinct (first_positions shp expected)"
  then show "distinct expected"
    unfolding first_positions_def by (simp add: distinct_map)
next
  assume d: "distinct expected"
  have "inj_on (\<lambda>s. case index_of (map int shp) s of Some k \<Rightarrow> k | None \<Rightarrow> 0) (set expected)"
  proof (rule inj_onI)
    fix s t assume st: "s \<in> set expected" "t \<in> set expected"
      and eq: "(case index_of (map int shp) s of Some k \<Rightarrow> k | None \<Rightarrow> 0)
             = (case index_of (map int shp) t of Some k \<Rightarrow> k | None \<Rightarrow> 0)"
    from st assms obtain k l where kl: "index_of (map int shp) s = Some k"
        "index_of (map int shp) t = Some l"
      using index_of_member by (metis subsetD)
    with eq have "k = l" by simp
    with index_of_Some [OF kl(1)] index_of_Some [OF kl(2)] show "s = t" by simp
  qed
  with d show "distinct (first_positions shp expected)"
    unfolding first_positions_def by (simp add: distinct_map)
qed


lemma mset_eq_shape_facts:
  assumes "mset (map int shp) = mset expected"
  shows "set expected \<subseteq> set (map int shp)" and "length expected = length shp"
    and "distinct expected \<longleftrightarrow> distinct shp"
proof -
  from assms show "set expected \<subseteq> set (map int shp)"
    by (metis mset_eq_setD subset_refl)
  from assms show "length expected = length shp"
    by (metis length_map mset_eq_length)
  from assms have "distinct expected \<longleftrightarrow> distinct (map int shp)"
    by (metis mset_eq_imp_distinct_iff)
  then show "distinct expected \<longleftrightarrow> distinct shp"
    by (simp add: distinct_map)
qed

text \<open>
  C4 (the code fails the claim). For one fetch of the validated variant, with \<open>arr\<close> the
  squeezed result and \<open>expected\<close> the shape computed from the axis specification: equal
  shapes give \<open>arr\<close> as it is; different multisets of sizes give the
  \<^verbatim>\<open>ValueError\<close> that names the variable, the 1-based qubit index and both shapes; equal
  multisets with pairwise different sizes give the array transposed along the first
  positions of the expected sizes, with the expected shape. But when a size occurs twice,
  these first positions repeat an axis, and \<^verbatim>\<open>np.transpose\<close> raises its own
  \<^verbatim>\<open>ValueError\<close>: the array is not transposed.
\<close>

theorem single_shot_qubit_data_cases:
  assumes fetched: "map_of handles (meas_var @ str_nat (i + 1)) = Some raw"
    and arr: "arr = np_squeeze raw"
    and expected: "expected = expected_shape_of measurement_axis"
  shows
    "(map int (shape arr) = expected \<longrightarrow>
        single_shot_qubit_data handles measurement_axis meas_var i = Inr arr)
     \<and> (map int (shape arr) \<noteq> expected \<and> mset (map int (shape arr)) = mset expected
          \<and> distinct (shape arr) \<longrightarrow>
        (\<exists>a. single_shot_qubit_data handles measurement_axis meas_var i = Inr a
            \<and> np_transpose arr (first_positions (shape arr) expected) = Inr a
            \<and> map int (shape a) = expected))
     \<and> (map int (shape arr) \<noteq> expected \<and> mset (map int (shape arr)) = mset expected
          \<and> \<not> distinct (shape arr) \<longrightarrow>
        single_shot_qubit_data handles measurement_axis meas_var i
          = Inl (ValueError ''repeated axis in transpose''))
     \<and> (mset (map int (shape arr)) \<noteq> mset expected \<longrightarrow>
        single_shot_qubit_data handles measurement_axis meas_var i
          = Inl (ValueError (''Shape mismatch for '' @ meas_var @ str_nat (i + 1) @ '': got ''
                   @ tuple_repr (shape arr) @ '', expected '' @ list_repr expected)))"
proof (intro conjI impI)
  have fetch: "handle_fetch_all handles (meas_var @ str_nat (i + 1)) = Inr raw"
    using fetched by (simp add: handle_fetch_all_def del: str_nat.simps)
  have run: "single_shot_qubit_data handles measurement_axis meas_var i =
      (if map int (shape arr) \<noteq> expected then
         if sort (map int (shape arr)) = sort expected then
           (case sequence_results (map (shape_index (shape arr)) expected) of
              Inl e \<Rightarrow> Inl e
            | Inr perm \<Rightarrow> np_transpose arr perm)
         else
           Inl (ValueError
             (''Shape mismatch for '' @ meas_var @ str_nat (i + 1) @ '': got ''
                @ tuple_repr (shape arr) @ '', expected '' @ list_repr expected))
       else Inr arr)"
    unfolding single_shot_qubit_data_def fetch arr expected
    by (simp add: Let_def del: str_nat.simps)
  show "single_shot_qubit_data handles measurement_axis meas_var i = Inr arr"
    if "map int (shape arr) = expected"
    using that unfolding run by simp
  show "single_shot_qubit_data handles measurement_axis meas_var i
          = Inl (ValueError (''Shape mismatch for '' @ meas_var @ str_nat (i + 1) @ '': got ''
                   @ tuple_repr (shape arr) @ '', expected '' @ list_repr expected))"
    if "mset (map int (shape arr)) \<noteq> mset expected"
  proof -
    from that have "map int (shape arr) \<noteq> expected" by auto
    moreover from that have "sort (map int (shape arr)) \<noteq> sort expected"
      by (simp add: sort_eq_iff_mset)
    ultimately show ?thesis
      unfolding run by (simp del: str_nat.simps)
  qed
  {
    assume perm: "map int (shape arr) \<noteq> expected \<and> mset (map int (shape arr)) = mset expected
          \<and> distinct (shape arr)"
    then have ms: "mset (map int (shape arr)) = mset expected" by simp
    note facts = mset_eq_shape_facts [OF ms]
    let ?axes = "first_positions (shape arr) expected"
    have transposed: "single_shot_qubit_data handles measurement_axis meas_var i
                        = np_transpose arr ?axes"
      unfolding run using perm shape_index_positions [OF facts(1)]
      by (simp add: sort_eq_iff_mset)
    have len: "length ?axes = length (shape arr)"
      using first_positions_props(1) [OF facts(1)] facts(2) by simp
    have bound: "\<not> list_ex (\<lambda>p. length (shape arr) \<le> p) ?axes"
      using first_positions_props(2) [OF facts(1)] by (auto simp: list_ex_iff)
    have dist: "distinct ?axes"
      using first_positions_distinct_iff [OF facts(1)] facts(3) perm by simp
    have shp: "map int (map (\<lambda>p. shape arr ! p) ?axes) = expected"
      using first_positions_props(3) [OF facts(1)] by (simp add: comp_def)
    from len bound dist obtain a where a: "np_transpose arr ?axes = Inr a"
        "shape a = map (\<lambda>p. shape arr ! p) ?axes"
      by (simp add: np_transpose_def Let_def)
    with transposed shp
    show "\<exists>a. single_shot_qubit_data handles measurement_axis meas_var i = Inr a
            \<and> np_transpose arr (first_positions (shape arr) expected) = Inr a
            \<and> map int (shape a) = expected"
      by simp
  }
  {
    assume rep: "map int (shape arr) \<noteq> expected \<and> mset (map int (shape arr)) = mset expected
          \<and> \<not> distinct (shape arr)"
    then have ms: "mset (map int (shape arr)) = mset expected" by simp
    note facts = mset_eq_shape_facts [OF ms]
    let ?axes = "first_positions (shape arr) expected"
    have transposed: "single_shot_qubit_data handles measurement_axis meas_var i
                        = np_transpose arr ?axes"
      unfolding run using rep shape_index_positions [OF facts(1)]
      by (simp add: sort_eq_iff_mset)
    have len: "length ?axes = length (shape arr)"
      using first_positions_props(1) [OF facts(1)] facts(2) by simp
    have bound: "\<not> list_ex (\<lambda>p. length (shape arr) \<le> p) ?axes"
      using first_positions_props(2) [OF facts(1)] by (auto simp: list_ex_iff)
    have dist: "\<not> distinct ?axes"
      using first_positions_distinct_iff [OF facts(1)] facts(3) rep by simp
    from len bound dist transposed
    show "single_shot_qubit_data handles measurement_axis meas_var i
          = Inl (ValueError ''repeated axis in transpose'')"
      by (simp add: np_transpose_def)
  }
qed


lemma set_iteration_remdups: "set_iteration remdups"
  by (simp add: set_iteration_def)

theorem single_shot_qubit_data_cases_witness:
  "single_shot_qubit_data
     [(''I1'', \<lparr>shape = [2, 3, 2], data = map int [0..<12]\<rparr>)]
     [(''a'', Sequence [PyInt 0, PyInt 1]), (''b'', Sequence [PyInt 0, PyInt 1]),
      (''c'', Sequence [PyInt 0, PyInt 1, PyInt 2])] ''I'' 0
   = Inl (ValueError ''repeated axis in transpose'')
   \<and> fetch_single_shot_results_as_xarray remdups
     [(''I1'', \<lparr>shape = [2, 3, 2], data = map int [0..<12]\<rparr>)] [\<lparr>name = ''q1''\<rparr>]
     [(''a'', Sequence [PyInt 0, PyInt 1]), (''b'', Sequence [PyInt 0, PyInt 1]),
      (''c'', Sequence [PyInt 0, PyInt 1, PyInt 2])]
   = Inl (ValueError ''repeated axis in transpose'')
   \<and> single_shot_qubit_data
     [(''I1'', \<lparr>shape = [1, 3, 2], data = [0, 1, 2, 3, 4, 5 :: int]\<rparr>)]
     [(''a'', Sequence [PyInt 0, PyInt 1]), (''n'', Scalar 3)] ''I'' 0
   = Inr \<lparr>shape = [2, 3], data = [0, 2, 4, 1, 3, 5]\<rparr>
   \<and> single_shot_qubit_data
     [(''I1'', \<lparr>shape = [3, 2], data = [0, 1, 2, 3, 4, 5 :: int]\<rparr>)]
     [(''a'', Sequence [PyInt 0, PyInt 1, PyInt 2, PyInt 3]), (''n'', Scalar 5)] ''I'' 0
   = Inl (ValueError ''Shape mismatch for I1: got (3, 2), expected [4, 5]'')
   \<and> single_shot_qubit_data
     [(''I1'', \<lparr>shape = [2, 1, 3], data = [0, 1, 2, 3, 4, 5 :: int]\<rparr>)]
     [(''a'', Sequence [PyInt 0, PyInt 1]), (''n'', Scalar 3)] ''I'' 0
   = Inr \<lparr>shape = [2, 3], data = [0, 1, 2, 3, 4, 5]\<rparr>"
proof -
  let ?raw1 = "\<lparr>shape = [2, 3, 2], data = map int [0..<12]\<rparr>"
  let ?axis1 = "[(''a'', Sequence [PyInt 0, PyInt 1]), (''b'', Sequence [PyInt 0, PyInt 1]),
      (''c'', Sequence [PyInt 0, PyInt 1, PyInt 2])]"
  let ?raw2 = "\<lparr>shape = [1, 3, 2], data = [0, 1, 2, 3, 4, 5 :: int]\<rparr>"
  let ?axis2 = "[(''a'', Sequence [PyInt 0, PyInt 1]), (''n'', Scalar 3)]"
  let ?raw3 = "\<lparr>shape = [3, 2], data = [0, 1, 2, 3, 4, 5 :: int]\<rparr>"
  let ?axis3 = "[(''a'', Sequence [PyInt 0, PyInt 1, PyInt 2, PyInt 3]), (''n'', Scalar 5)]"
  let ?raw4 = "\<lparr>shape = [2, 1, 3], data = [0, 1, 2, 3, 4, 5 :: int]\<rparr>"
  have key: "''I'' @ str_nat (0 + 1) = ''I1''"
    by (simp add: digit_char_def)
  have f1: "map_of [(''I1'', ?raw1)] (''I'' @ str_nat (0 + 1)) = Some ?raw1"
    unfolding key by simp
  have f2: "map_of [(''I1'', ?raw2)] (''I'' @ str_nat (0 + 1)) = Some ?raw2"
    unfolding key by simp
  have f3: "map_of [(''I1'', ?raw3)] (''I'' @ str_nat (0 + 1)) = Some ?raw3"
    unfolding key by simp
  have f4: "map_of [(''I1'', ?raw4)] (''I'' @ str_nat (0 + 1)) = Some ?raw4"
    unfolding key by simp
  have repeated: "single_shot_qubit_data [(''I1'', ?raw1)] ?axis1 ''I'' 0
                    = Inl (ValueError ''repeated axis in transpose'')"
    using single_shot_qubit_data_cases [OF f1 refl refl, of ?axis1]
    by (simp add: np_squeeze_def expected_shape_of_def)
  have whole: "fetch_single_shot_results_as_xarray remdups [(''I1'', ?raw1)] [\<lparr>name = ''q1''\<rparr>] ?axis1
                 = Inl (ValueError ''repeated axis in transpose'')"
    using repeated
    by (simp add: fetch_single_shot_results_as_xarray_def parsed_handles_def extract_string_def
        isdigit_def Let_def)
  have transposed: "single_shot_qubit_data [(''I1'', ?raw2)] ?axis2 ''I'' 0
                      = Inr \<lparr>shape = [2, 3], data = [0, 2, 4, 1, 3, 5]\<rparr>"
    using single_shot_qubit_data_cases [OF f2 refl refl, of ?axis2]
    by (simp add: np_squeeze_def expected_shape_of_def first_positions_def np_transpose_def
        source_index_def Let_def upt_rec [of _ "numeral k" for k])
  have mismatch: "single_shot_qubit_data [(''I1'', ?raw3)] ?axis3 ''I'' 0
                   = Inl (ValueError ''Shape mismatch for I1: got (3, 2), expected [4, 5]'')"
  proof -
    have "mset [3, 2 :: int] \<noteq> mset [4, 5]"
    proof
      assume "mset [3, 2 :: int] = mset [4, 5]"
      then have "set [3, 2 :: int] = set [4, 5]" by (rule mset_eq_setD)
      then show False by auto
    qed
    with single_shot_qubit_data_cases [OF f3 refl refl, of ?axis3] show ?thesis
      by (simp add: np_squeeze_def expected_shape_of_def tuple_repr_def list_repr_def str_int_def
          digit_char_def)
  qed
  have as_is: "single_shot_qubit_data [(''I1'', ?raw4)] ?axis2 ''I'' 0
                 = Inr \<lparr>shape = [2, 3], data = [0, 1, 2, 3, 4, 5]\<rparr>"
    using single_shot_qubit_data_cases [OF f4 refl refl, of ?axis2]
    by (simp add: np_squeeze_def expected_shape_of_def)
  from repeated whole transposed mismatch as_is show ?thesis by blast
qed



text \<open>
  C5. In the standard variant, with two qubits, the handles \<^verbatim>\<open>I1\<close>, \<^verbatim>\<open>I2\<close>, \<^verbatim>\<open>Q1\<close>,
  \<^verbatim>\<open>Q2\<close>, each fetching an array of shape \<^verbatim>\<open>(3,)\<close>, and the single axis \<^verbatim>\<open>freq\<close> with
  three values, and whatever the iteration order of the set of variable names, the dataset
  has exactly the data variables \<^verbatim>\<open>I\<close> and \<^verbatim>\<open>Q\<close>, each of shape \<^verbatim>\<open>(2, 3)\<close> with the
  dimension labels \<^verbatim>\<open>["qubit", "freq"]\<close>. In general, whenever the standard variant returns
  a dataset, its coordinates are the axis specification with the \<^verbatim>\<open>qubit\<close> axis inserted,
  reversed, and every data variable has the names of these coordinates, in this order, as
  its dimension labels.
\<close>

theorem fetch_results_as_xarray_dimension_order:
  assumes order: "set_iteration set_order"
    and shapes: "shape aI1 = [3]" "shape aI2 = [3]" "shape aQ1 = [3]" "shape aQ2 = [3]"
  shows "(\<exists>ds.
      fetch_results_as_xarray set_order
        [(''I1'', aI1), (''I2'', aI2), (''Q1'', aQ1), (''Q2'', aQ2)] [q1, q2]
        [(''freq'', Sequence [f0, f1, f2])] = Inr ds
      \<and> fst ` set (data_vars ds) = {''I'', ''Q''}
      \<and> map_of (data_vars ds) ''I''
            = Some ([''qubit'', ''freq''], \<lparr>shape = [2, 3], data = data aI1 @ data aI2\<rparr>)
      \<and> map_of (data_vars ds) ''Q''
            = Some ([''qubit'', ''freq''], \<lparr>shape = [2, 3], data = data aQ1 @ data aQ2\<rparr>)
      \<and> coords ds = [(''qubit'', Sequence [PyStr (name q1), PyStr (name q2)]),
                      (''freq'', Sequence [f0, f1, f2])])
    \<and> (\<forall>ds. fetch_results_as_xarray set_order handles qs measurement_axis = Inr ds \<longrightarrow>
          coords ds =
            rev (dict_set measurement_axis ''qubit'' (Sequence (map (\<lambda>q. PyStr (name q)) qs)))
          \<and> (\<forall>(v, dims, a)\<in>set (data_vars ds). dims = map fst (coords ds)))"
proof (rule conjI)
  show "\<exists>ds.
      fetch_results_as_xarray set_order
        [(''I1'', aI1), (''I2'', aI2), (''Q1'', aQ1), (''Q2'', aQ2)] [q1, q2]
        [(''freq'', Sequence [f0, f1, f2])] = Inr ds
      \<and> fst ` set (data_vars ds) = {''I'', ''Q''}
      \<and> map_of (data_vars ds) ''I''
            = Some ([''qubit'', ''freq''], \<lparr>shape = [2, 3], data = data aI1 @ data aI2\<rparr>)
      \<and> map_of (data_vars ds) ''Q''
            = Some ([''qubit'', ''freq''], \<lparr>shape = [2, 3], data = data aQ1 @ data aQ2\<rparr>)
      \<and> coords ds = [(''qubit'', Sequence [PyStr (name q1), PyStr (name q2)]),
                      (''freq'', Sequence [f0, f1, f2])]"
    by (rule fetch_IQ_example [OF order shapes])
  show "\<forall>ds. fetch_results_as_xarray set_order handles qs measurement_axis = Inr ds \<longrightarrow>
          coords ds =
            rev (dict_set measurement_axis ''qubit'' (Sequence (map (\<lambda>q. PyStr (name q)) qs)))
          \<and> (\<forall>(v, dims, a)\<in>set (data_vars ds). dims = map fst (coords ds))"
  proof (intro allI impI)
    fix ds
    assume "fetch_results_as_xarray set_order handles qs measurement_axis = Inr ds"
    then show "coords ds =
            rev (dict_set measurement_axis ''qubit'' (Sequence (map (\<lambda>q. PyStr (name q)) qs)))
          \<and> (\<forall>(v, dims, a)\<in>set (data_vars ds). dims = map fst (coords ds))"
      by (rule fetch_results_as_xarray_dims)
  qed
qed


theorem fetch_results_as_xarray_dimension_order_witness:
  "set_iteration remdups
   \<and> (\<exists>ds.
      fetch_results_as_xarray remdups
        [(''I1'', \<lparr>shape = [3], data = [1, 2, 3 :: int]\<rparr>),
         (''I2'', \<lparr>shape = [3], data = [4, 5, 6]\<rparr>),
         (''Q1'', \<lparr>shape = [3], data = [7, 8, 9]\<rparr>),
         (''Q2'', \<lparr>shape = [3], data = [10, 11, 12]\<rparr>)]
        [\<lparr>name = ''q1''\<rparr>, \<lparr>name = ''q2''\<rparr>]
        [(''freq'', Sequence [PyInt 10, PyInt 20, PyInt 30])] = Inr ds
      \<and> map_of (data_vars ds) ''I''
            = Some ([''qubit'', ''freq''], \<lparr>shape = [2, 3], data = [1, 2, 3, 4, 5, 6]\<rparr>)
      \<and> map_of (data_vars ds) ''Q''
            = Some ([''qubit'', ''freq''], \<lparr>shape = [2, 3], data = [7, 8, 9, 10, 11, 12]\<rparr>)
      \<and> coords ds = [(''qubit'', Sequence [PyStr ''q1'', PyStr ''q2'']),
                      (''freq'', Sequence [PyInt 10, PyInt 20, PyInt 30])])"
proof -
  let ?I1 = "\<lparr>shape = [3], data = [1, 2, 3 :: int]\<rparr>"
  let ?I2 = "\<lparr>shape = [3], data = [4, 5, 6 :: int]\<rparr>"
  let ?Q1 = "\<lparr>shape = [3], data = [7, 8, 9 :: int]\<rparr>"
  let ?Q2 = "\<lparr>shape = [3], data = [10, 11, 12 :: int]\<rparr>"
  have order: "set_iteration remdups"
    by (rule set_iteration_remdups)
  have s1: "shape ?I1 = [3]" by simp
  have s2: "shape ?I2 = [3]" by simp
  have s3: "shape ?Q1 = [3]" by simp
  have s4: "shape ?Q2 = [3]" by simp
  note inst = fetch_results_as_xarray_dimension_order
    [OF order s1 s2 s3 s4, of "\<lparr>name = ''q1''\<rparr>" "\<lparr>name = ''q2''\<rparr>" "PyInt 10" "PyInt 20" "PyInt 30",
     THEN conjunct1]
  from inst obtain ds where
    run: "fetch_results_as_xarray remdups
        [(''I1'', ?I1), (''I2'', ?I2), (''Q1'', ?Q1), (''Q2'', ?Q2)]
        [\<lparr>name = ''q1''\<rparr>, \<lparr>name = ''q2''\<rparr>]
        [(''freq'', Sequence [PyInt 10, PyInt 20, PyInt 30])] = Inr ds"
    and varI: "map_of (data_vars ds) ''I''
            = Some ([''qubit'', ''freq''], \<lparr>shape = [2, 3], data = data ?I1 @ data ?I2\<rparr>)"
    and varQ: "map_of (data_vars ds) ''Q''
            = Some ([''qubit'', ''freq''], \<lparr>shape = [2, 3], data = data ?Q1 @ data ?Q2\<rparr>)"
    and cs: "coords ds = [(''qubit'', Sequence [PyStr (name \<lparr>name = ''q1''\<rparr>),
                                               PyStr (name \<lparr>name = ''q2''\<rparr>)]),
                      (''freq'', Sequence [PyInt 10, PyInt 20, PyInt 30])]"
    by (elim exE conjE)
  from varI have varI': "map_of (data_vars ds) ''I''
            = Some ([''qubit'', ''freq''], \<lparr>shape = [2, 3], data = [1, 2, 3, 4, 5, 6]\<rparr>)"
    by simp
  from varQ have varQ': "map_of (data_vars ds) ''Q''
            = Some ([''qubit'', ''freq''], \<lparr>shape = [2, 3], data = [7, 8, 9, 10, 11, 12]\<rparr>)"
    by simp
  from cs have cs': "coords ds = [(''qubit'', Sequence [PyStr ''q1'', PyStr ''q2'']),
                      (''freq'', Sequence [PyInt 10, PyInt 20, PyInt 30])]"
    by simp
  from order run varI' varQ' cs' show ?thesis
    by (intro conjI exI [of _ ds])
qed

end
